theory Spec2Isabelle
  imports Complex_Main
begin

section \<open>Numbers and arrays\<close>

text \<open>
  The program computes on NumPy float64 arrays.  A sample is modelled as an exact real
  number or one of the three special values of IEEE arithmetic; \<open>NaN\<close> is the
  "missing value" of the stacking pipeline.  Rounding, overflow of finite values and the
  sign of zero are not modelled (a zero divisor counts as \<open>+0\<close>); everything else the
  operations below do on special values follows IEEE 754, which is what NumPy applies
  (division by zero gives an infinity or NaN and a warning, never an exception).
\<close>

datatype fl = Fin real | PInf | NInf | NaN

fun isnan :: "fl \<Rightarrow> bool" where
  "isnan NaN = True"
| "isnan _ = False"

fun fneg :: "fl \<Rightarrow> fl" where
  "fneg (Fin a) = Fin (- a)"
| "fneg PInf = NInf"
| "fneg NInf = PInf"
| "fneg NaN = NaN"

fun fabs :: "fl \<Rightarrow> fl" where
  "fabs (Fin a) = Fin \<bar>a\<bar>"
| "fabs PInf = PInf"
| "fabs NInf = PInf"
| "fabs NaN = NaN"

fun fadd :: "fl \<Rightarrow> fl \<Rightarrow> fl" where
  "fadd NaN _ = NaN"
| "fadd _ NaN = NaN"
| "fadd PInf NInf = NaN"
| "fadd NInf PInf = NaN"
| "fadd PInf _ = PInf"
| "fadd _ PInf = PInf"
| "fadd NInf _ = NInf"
| "fadd _ NInf = NInf"
| "fadd (Fin a) (Fin b) = Fin (a + b)"

definition fsub :: "fl \<Rightarrow> fl \<Rightarrow> fl" where
  "fsub x y = fadd x (fneg y)"

text \<open>The sign of an infinity times (or over) a finite number; zero times infinity is NaN.\<close>

fun inf_signed :: "bool \<Rightarrow> fl" where
  "inf_signed True = PInf"
| "inf_signed False = NInf"

fun fmul :: "fl \<Rightarrow> fl \<Rightarrow> fl" where
  "fmul NaN _ = NaN"
| "fmul _ NaN = NaN"
| "fmul (Fin a) (Fin b) = Fin (a * b)"
| "fmul (Fin a) PInf = (if a = 0 then NaN else inf_signed (0 < a))"
| "fmul (Fin a) NInf = (if a = 0 then NaN else inf_signed (a < 0))"
| "fmul PInf (Fin b) = (if b = 0 then NaN else inf_signed (0 < b))"
| "fmul NInf (Fin b) = (if b = 0 then NaN else inf_signed (b < 0))"
| "fmul PInf PInf = PInf"
| "fmul PInf NInf = NInf"
| "fmul NInf PInf = NInf"
| "fmul NInf NInf = PInf"

fun fdiv :: "fl \<Rightarrow> fl \<Rightarrow> fl" where
  "fdiv NaN _ = NaN"
| "fdiv _ NaN = NaN"
| "fdiv (Fin a) (Fin b) =
     (if b = 0 then (if a = 0 then NaN else inf_signed (0 < a)) else Fin (a / b))"
| "fdiv (Fin a) PInf = Fin 0"
| "fdiv (Fin a) NInf = Fin 0"
| "fdiv PInf (Fin b) = inf_signed (0 \<le> b)"
| "fdiv NInf (Fin b) = inf_signed (b < 0)"
| "fdiv PInf PInf = NaN"
| "fdiv PInf NInf = NaN"
| "fdiv NInf PInf = NaN"
| "fdiv NInf NInf = NaN"

text \<open>\<open>fgt x y\<close> is the comparison \<open>x > y\<close>: false as soon as one side is NaN.\<close>

fun fgt :: "fl \<Rightarrow> fl \<Rightarrow> bool" where
  "fgt NaN _ = False"
| "fgt _ NaN = False"
| "fgt (Fin a) (Fin b) = (b < a)"
| "fgt PInf PInf = False"
| "fgt PInf _ = True"
| "fgt NInf _ = False"
| "fgt (Fin a) PInf = False"
| "fgt (Fin a) NInf = True"

definition flt :: "fl \<Rightarrow> fl \<Rightarrow> bool" where
  "flt x y = fgt y x"

fun feq :: "fl \<Rightarrow> fl \<Rightarrow> bool" where
  "feq NaN _ = False"
| "feq _ NaN = False"
| "feq x y = (x = y)"

definition fge :: "fl \<Rightarrow> fl \<Rightarrow> bool" where
  "fge x y = (fgt x y \<or> feq x y)"

subsection \<open>Exceptions\<close>

datatype error =
    KeyError string
  | IndexError
  | ValueError
  | TypeError
  | NameError
  | AttributeError
  | ZeroDivisionError
  | OverflowError

definition ebind :: "error + 'a \<Rightarrow> ('a \<Rightarrow> error + 'b) \<Rightarrow> error + 'b" where
  "ebind m f = (case m of Inl e \<Rightarrow> Inl e | Inr x \<Rightarrow> f x)"

text \<open>A list comprehension whose body may raise: the first exception ends it.\<close>

fun emap :: "('a \<Rightarrow> error + 'b) \<Rightarrow> 'a list \<Rightarrow> error + 'b list" where
  "emap f [] = Inr []"
| "emap f (x # xs) = ebind (f x) (\<lambda>y. ebind (emap f xs) (\<lambda>ys. Inr (y # ys)))"

subsection \<open>Array operations\<close>

text \<open>
  Array positions are natural numbers (the primitives that produce them return positions
  of array elements).  \<open>py_slice a b xs\<close> is \<open>xs[a:b]\<close>, bounds clipped to the length as
  Python does; \<open>slice_set a b ys xs\<close> is the assignment \<open>xs[a:b] = ys\<close> for \<open>ys\<close> of
  the slice's length, and \<open>slice_fill a b v xs\<close> is \<open>xs[a:b] = v\<close> for a scalar.
\<close>

definition py_slice :: "nat \<Rightarrow> nat \<Rightarrow> 'a list \<Rightarrow> 'a list" where
  "py_slice a b xs = take (b - a) (drop a xs)"

definition slice_set :: "nat \<Rightarrow> nat \<Rightarrow> 'a list \<Rightarrow> 'a list \<Rightarrow> 'a list" where
  "slice_set a b ys xs =
     map (\<lambda>i. if a \<le> i \<and> i < b then ys ! (i - a) else xs ! i) [0..<length xs]"

definition slice_fill :: "nat \<Rightarrow> nat \<Rightarrow> 'a \<Rightarrow> 'a list \<Rightarrow> 'a list" where
  "slice_fill a b v xs =
     map (\<lambda>i. if a \<le> i \<and> i < b then v else xs ! i) [0..<length xs]"

text \<open>\<open>xs[i]\<close> and the fancy indexing \<open>xs[is]\<close>: out of range raises IndexError.\<close>

definition getitem :: "'a list \<Rightarrow> nat \<Rightarrow> error + 'a" where
  "getitem xs i = (if i < length xs then Inr (xs ! i) else Inl IndexError)"

definition take_idx :: "'a list \<Rightarrow> nat list \<Rightarrow> error + 'a list" where
  "take_idx xs js = emap (getitem xs) js"

text \<open>\<open>np.nansum\<close>: NaN entries count as zero; the sum of no entries is zero.\<close>

definition nansum :: "fl list \<Rightarrow> fl" where
  "nansum xs = foldl fadd (Fin 0) (map (\<lambda>v. if isnan v then Fin 0 else v) xs)"

text \<open>
  \<open>np.nanmax\<close>: the largest entry that is not NaN; NaN (and a warning) when all
  entries are NaN; ValueError on an empty array.
\<close>

definition nanmax :: "fl list \<Rightarrow> error + fl" where
  "nanmax xs =
     (if xs = [] then Inl ValueError
      else case filter (\<lambda>v. \<not> isnan v) xs of
             [] \<Rightarrow> Inr NaN
           | y # ys \<Rightarrow> Inr (foldl (\<lambda>m v. if fgt v m then v else m) y ys))"

text \<open>
  Python's builtin \<open>max\<close> over a sequence: it keeps the first item and replaces it by
  every later item that compares greater; ValueError on an empty sequence.
\<close>

definition py_max :: "fl list \<Rightarrow> error + fl" where
  "py_max xs =
     (case xs of
        [] \<Rightarrow> Inl ValueError
      | y # ys \<Rightarrow> Inr (foldl (\<lambda>m v. if fgt v m then v else m) y ys))"

section \<open>Consumed primitives and the options mapping\<close>

text \<open>
  \<open>find_peaks\<close>, \<open>find_nearest\<close>, \<open>_find_nans\<close>, \<open>_get_res\<close> (molsim.utils),
  \<open>get_rms\<close> (molsim.stats) and the constant \<open>ckm\<close> (molsim.constants) are imported
  by the source file and are parameters of the model; each function may raise.
\<close>

record prims =
  find_peaks :: "fl list \<Rightarrow> fl list \<Rightarrow> fl \<Rightarrow> fl \<Rightarrow> bool \<Rightarrow> error + nat list"
  find_nearest :: "fl list \<Rightarrow> fl \<Rightarrow> error + nat"
  find_nans :: "fl list \<Rightarrow> error + (nat list \<times> nat list)"
  get_res :: "fl list \<Rightarrow> error + fl"
  get_rms :: "fl list \<Rightarrow> error + fl"
  ckm :: fl

text \<open>
  The \<open>params\<close> dictionary: one optional field per key, \<open>None\<close> when the key is absent.
\<close>

record params =
  p_selection :: "string option"
  p_freq_arr :: "fl list option"
  p_int_arr :: "fl list option"
  p_freq_sim :: "fl list option"
  p_int_sim :: "fl list option"
  p_res_inp :: "fl option"
  p_dV :: "fl option"
  p_dV_ext :: "fl option"
  p_vlsr :: "fl option"
  p_vel_width :: "fl option"
  p_v_res :: "fl option"
  p_drops :: "nat list option"
  p_blank_lines :: "bool option"
  p_blank_keep_range :: "(fl \<times> fl) option"
  p_flag_lines :: "bool option"
  p_flag_sigma :: "fl option"

text \<open>\<open>params[key]\<close>: KeyError when the key is absent.\<close>

definition lookup :: "string \<Rightarrow> 'a option \<Rightarrow> error + 'a" where
  "lookup key v = (case v of None \<Rightarrow> Inl (KeyError key) | Some x \<Rightarrow> Inr x)"

text \<open>The local variables of \<open>velocity_stack\<close> after the unpacking (lines 135 to 150).\<close>

record opts =
  o_freq_arr :: "fl list"
  o_int_arr :: "fl list"
  o_freq_sim :: "fl list"
  o_int_sim :: "fl list"
  o_res_inp :: fl
  o_dV :: fl
  o_dV_ext :: "fl option"
  o_vlsr :: fl
  o_vel_width :: fl
  o_v_res :: fl
  o_drops :: "nat list"
  o_blank_lines :: bool
  o_blank_keep_range :: "fl \<times> fl"
  o_flag_lines :: bool
  o_flag_sigma :: fl

text \<open>
  Line 145 reads \<open>params['v_res'] if 'drops' in options else 0.1*dV\<close>: the key that is
  tested is \<open>drops\<close>, the key that is read is \<open>v_res\<close>.
\<close>

definition unpack_v_res :: "params \<Rightarrow> fl \<Rightarrow> error + fl" where
  "unpack_v_res p dV =
     (if p_drops p \<noteq> None then lookup ''v_res'' (p_v_res p)
      else Inr (fmul (Fin (1 / 10)) dV))"

definition unpack :: "prims \<Rightarrow> params \<Rightarrow> error + opts" where
  "unpack P p =
     ebind (lookup ''freq_arr'' (p_freq_arr p)) (\<lambda>freq_arr.
     ebind (lookup ''int_arr'' (p_int_arr p)) (\<lambda>int_arr.
     ebind (lookup ''freq_sim'' (p_freq_sim p)) (\<lambda>freq_sim.
     ebind (lookup ''int_sim'' (p_int_sim p)) (\<lambda>int_sim.
     ebind (case p_res_inp p of Some r \<Rightarrow> Inr r | None \<Rightarrow> get_res P freq_arr) (\<lambda>res_inp.
     ebind (lookup ''dV'' (p_dV p)) (\<lambda>dV.
     ebind (lookup ''vlsr'' (p_vlsr p)) (\<lambda>vlsr.
     ebind (lookup ''vel_width'' (p_vel_width p)) (\<lambda>vel_width.
     ebind (unpack_v_res p dV) (\<lambda>v_res.
     Inr \<lparr> o_freq_arr = freq_arr, o_int_arr = int_arr,
           o_freq_sim = freq_sim, o_int_sim = int_sim,
           o_res_inp = res_inp, o_dV = dV, o_dV_ext = p_dV_ext p,
           o_vlsr = vlsr, o_vel_width = vel_width, o_v_res = v_res,
           o_drops = (case p_drops p of Some d \<Rightarrow> d | None \<Rightarrow> []),
           o_blank_lines = (case p_blank_lines p of Some b \<Rightarrow> b | None \<Rightarrow> False),
           o_blank_keep_range =
             (case p_blank_keep_range p of Some r \<Rightarrow> r
              | None \<Rightarrow> (fmul (Fin (- 3)) dV, fmul (Fin 3) dV)),
           o_flag_lines = (case p_flag_lines p of Some b \<Rightarrow> b | None \<Rightarrow> False),
           o_flag_sigma = (case p_flag_sigma p of Some x \<Rightarrow> x | None \<Rightarrow> Fin 5) \<rparr>)))))))))"

section \<open>Chunks\<close>

text \<open>
  \<open>freq_arr[x:y]\<close> and \<open>int_arr[x:y]\<close> are NumPy views: a chunk's \<open>int_obs\<close> and
  \<open>int_sim\<close> share memory with the caller's arrays and with every chunk whose window
  overlaps, and the blanking pass writes through them.  The state therefore holds the
  two intensity buffers (taken to be distinct arrays); a chunk holds the bounds of its
  two windows.  The frequency arrays are never written, so a chunk holds its frequency
  windows by value.
\<close>

record store =
  obs_buf :: "fl list"
  sim_buf :: "fl list"

record ObsChunk =
  freq_obs :: "fl list"
  win_obs :: "nat \<times> nat"
  freq_sim :: "fl list"
  win_sim :: "nat \<times> nat"
  peak_int :: fl
  id_chunk :: nat
  flag :: bool
  rms :: fl
  cfreq :: fl
  velocity :: "fl list"
  sim_velocity :: "fl list"
  weight :: "fl option"
  int_weighted :: "fl list option"
  int_sim_weighted :: "fl list option"
  int_samp :: "fl list option"
  int_sim_samp :: "fl list option"

definition int_obs :: "store \<Rightarrow> ObsChunk \<Rightarrow> fl list" where
  "int_obs s c = py_slice (fst (win_obs c)) (snd (win_obs c)) (obs_buf s)"

definition int_sim :: "store \<Rightarrow> ObsChunk \<Rightarrow> fl list" where
  "int_sim s c = py_slice (fst (win_sim c)) (snd (win_sim c)) (sim_buf s)"

definition set_int_obs :: "ObsChunk \<Rightarrow> fl list \<Rightarrow> store \<Rightarrow> store" where
  "set_int_obs c v s = s\<lparr>obs_buf := slice_set (fst (win_obs c)) (snd (win_obs c)) v (obs_buf s)\<rparr>"

definition set_int_sim :: "ObsChunk \<Rightarrow> fl list \<Rightarrow> store \<Rightarrow> store" where
  "set_int_sim c v s = s\<lparr>sim_buf := slice_set (fst (win_sim c)) (snd (win_sim c)) v (sim_buf s)\<rparr>"

text \<open>
  \<open>int(round(n/2))\<close> in Python 3: \<open>n/2\<close> is a float and \<open>round\<close> rounds a half to the
  even neighbour.
\<close>

definition round_half :: "nat \<Rightarrow> nat" where
  "round_half n =
     (if even n then n div 2 else if even (n div 2) then n div 2 else n div 2 + 1)"

definition set_cfreq :: "fl list \<Rightarrow> error + fl" where
  "set_cfreq fo = getitem fo (round_half (length fo))"

definition to_velocity :: "prims \<Rightarrow> fl \<Rightarrow> fl list \<Rightarrow> fl list" where
  "to_velocity P cf fs =
     map (\<lambda>f. fadd (Fin 0) (fdiv (fmul (fsub f cf) (ckm P)) cf)) fs"

text \<open>
  \<open>ObsChunk.__init__\<close>: the four setters run in the order \<open>set_rms\<close>, \<open>set_cfreq\<close>,
  \<open>set_velocity\<close>, \<open>set_sim_velocity\<close>.
\<close>

definition mk_chunk ::
  "prims \<Rightarrow> opts \<Rightarrow> store \<Rightarrow> (nat \<times> nat) \<Rightarrow> (nat \<times> nat) \<Rightarrow> fl \<Rightarrow> nat \<Rightarrow> error + ObsChunk" where
  "mk_chunk P u s wo ws pk c =
     (let fo = py_slice (fst wo) (snd wo) (o_freq_arr u);
          fs = py_slice (fst ws) (snd ws) (o_freq_sim u)
      in ebind (get_rms P (py_slice (fst wo) (snd wo) (obs_buf s))) (\<lambda>r.
         ebind (set_cfreq fo) (\<lambda>cf.
         Inr \<lparr> freq_obs = fo, win_obs = wo, freq_sim = fs, win_sim = ws,
               peak_int = pk, id_chunk = c, flag = False, rms = r, cfreq = cf,
               velocity = to_velocity P cf fo, sim_velocity = to_velocity P cf fs,
               weight = None, int_weighted = None, int_sim_weighted = None,
               int_samp = None, int_sim_samp = None \<rparr>)))"

section \<open>Selection and extraction\<close>

text \<open>Lines 156 to 167: the candidate frequencies and their peak intensities.\<close>

definition select_peaks :: "prims \<Rightarrow> opts \<Rightarrow> error + (fl list \<times> fl list)" where
  "select_peaks P u =
     ebind (find_peaks P (o_freq_sim u) (o_int_sim u) (o_res_inp u) (o_dV u) True) (\<lambda>idx.
     ebind (take_idx (o_freq_sim u) idx) (\<lambda>peak_freqs.
     ebind (take_idx (o_int_sim u) idx) (\<lambda>peak_ints.
     Inr (peak_freqs, peak_ints))))"

definition select_lines :: "prims \<Rightarrow> opts \<Rightarrow> error + (fl list \<times> fl list)" where
  "select_lines P u =
     ebind (case o_dV_ext u of None \<Rightarrow> Inl TypeError | Some e \<Rightarrow> Inr e) (\<lambda>dV_ext.
     ebind (find_peaks P (o_freq_sim u) (o_int_sim u) (o_res_inp u)
              (fmul (o_dV u) dV_ext) True) (\<lambda>idx.
     ebind (take_idx (o_freq_sim u) idx) (\<lambda>peak_freqs.
     let freq_widths = map (\<lambda>pf. fdiv (fmul (fmul (o_dV u) dV_ext) pf) (ckm P)) peak_freqs;
         pw = zip peak_freqs freq_widths
     in
     ebind (emap (\<lambda>(x, y). find_nearest P (o_freq_sim u) (fsub x (fdiv y (Fin 2)))) pw) (\<lambda>lls.
     ebind (emap (\<lambda>(x, y). find_nearest P (o_freq_sim u) (fadd x (fdiv y (Fin 2)))) pw) (\<lambda>uls.
     Inr (peak_freqs, map (\<lambda>(x, y). nansum (py_slice x y (o_int_sim u))) (zip lls uls)))))))"

text \<open>
  The two \<open>if\<close> statements test for \<open>'peaks'\<close> and \<open>'lines'\<close>; with any other value
  \<open>peak_freqs\<close> is unbound at line 170.
\<close>

definition select :: "prims \<Rightarrow> opts \<Rightarrow> string \<Rightarrow> error + (fl list \<times> fl list)" where
  "select P u sel =
     (if sel = ''peaks'' then select_peaks P u
      else if sel = ''lines'' then select_lines P u
      else Inl NameError)"

text \<open>Lines 170 to 176: the windows on both axes and one chunk per candidate.\<close>

definition extract_chunks ::
  "prims \<Rightarrow> opts \<Rightarrow> store \<Rightarrow> fl list \<Rightarrow> fl list \<Rightarrow> error + ObsChunk list" where
  "extract_chunks P u s peak_freqs peak_ints =
     (let freq_widths = map (\<lambda>pf. fdiv (fmul (o_vel_width u) pf) (ckm P)) peak_freqs;
          pw = zip peak_freqs freq_widths
      in
      ebind (emap (\<lambda>(x, y). find_nearest P (o_freq_arr u) (fsub x y)) pw) (\<lambda>lls_obs.
      ebind (emap (\<lambda>(x, y). find_nearest P (o_freq_arr u) (fadd x y)) pw) (\<lambda>uls_obs.
      ebind (emap (\<lambda>(x, y). find_nearest P (o_freq_sim u) (fsub x y)) pw) (\<lambda>lls_sim.
      ebind (emap (\<lambda>(x, y). find_nearest P (o_freq_sim u) (fadd x y)) pw) (\<lambda>uls_sim.
      emap (\<lambda>(wo, ws, pk, c). mk_chunk P u s wo ws pk c)
        (zip (zip lls_obs uls_obs)
          (zip (zip lls_sim uls_sim)
            (zip peak_ints [0..<length uls_sim]))))))))"

section \<open>The chunk cleaner\<close>

text \<open>
  The blanking pass (lines 194 to 216).  \<open>keep_bounds\<close> are the two frequencies that
  bound the protected band, \<open>safe_range\<close> the four positions \<open>ll_obs\<close>, \<open>ul_obs\<close>,
  \<open>ll_sim\<close>, \<open>ul_sim\<close> found for them.
\<close>

definition keep_bounds :: "prims \<Rightarrow> opts \<Rightarrow> ObsChunk \<Rightarrow> fl \<times> fl" where
  "keep_bounds P u c =
     (fsub (cfreq c) (fdiv (fmul (snd (o_blank_keep_range u)) (cfreq c)) (ckm P)),
      fsub (cfreq c) (fdiv (fmul (fst (o_blank_keep_range u)) (cfreq c)) (ckm P)))"

definition safe_range ::
  "prims \<Rightarrow> opts \<Rightarrow> ObsChunk \<Rightarrow> error + ((nat \<times> nat) \<times> (nat \<times> nat))" where
  "safe_range P u c =
     ebind (find_nearest P (freq_obs c) (fst (keep_bounds P u c))) (\<lambda>ll_obs.
     ebind (find_nearest P (freq_obs c) (snd (keep_bounds P u c))) (\<lambda>ul_obs.
     ebind (find_nearest P (freq_sim c) (fst (keep_bounds P u c))) (\<lambda>ll_sim.
     ebind (find_nearest P (freq_sim c) (snd (keep_bounds P u c))) (\<lambda>ul_sim.
     Inr ((ll_obs, ul_obs), (ll_sim, ul_sim))))))"

definition blank_mask :: "fl \<Rightarrow> fl list \<Rightarrow> fl list" where
  "blank_mask thr xs = map (\<lambda>x. if fgt (fabs x) thr then NaN else x) xs"

definition blank_runs :: "(nat \<times> nat) list \<Rightarrow> fl list \<Rightarrow> fl list" where
  "blank_runs runs xs = foldl (\<lambda>a (x, y). slice_fill x y NaN a) xs runs"

definition blank_pass ::
  "prims \<Rightarrow> opts \<Rightarrow> store \<Rightarrow> ObsChunk \<Rightarrow> error + (store \<times> ObsChunk \<times> fl list list)" where
  "blank_pass P u s c =
     ebind (safe_range P u c) (\<lambda>(wo, ws).
     let obs_safe = py_slice (fst wo) (snd wo) (int_obs s c);
         sim_safe = py_slice (fst ws) (snd ws) (int_sim s c);
         blanked = blank_mask (fmul (o_flag_sigma u) (rms c)) (int_obs s c)
     in
     ebind (find_nans P blanked) (\<lambda>(nans_lls, nans_uls).
     ebind (take_idx blanked nans_lls) (\<lambda>freqs_lls.
     ebind (take_idx blanked nans_uls) (\<lambda>freqs_uls.
     ebind (emap (find_nearest P (int_sim s c)) freqs_lls) (\<lambda>sim_lls.
     ebind (emap (find_nearest P (int_sim s c)) freqs_uls) (\<lambda>sim_uls.
     let s1 = set_int_obs c (slice_set (fst wo) (snd wo) obs_safe blanked) s;
         s2 = set_int_sim c
                (slice_set (fst ws) (snd ws) sim_safe
                   (blank_runs (zip sim_lls sim_uls) (int_sim s c))) s1
     in
     ebind (get_rms P (int_obs s2 c)) (\<lambda>r.
     Inr (s2, c\<lparr>rms := r\<rparr>,
          [[fst (keep_bounds P u c), cfreq c, snd (keep_bounds P u c)]]))))))))"

text \<open>The flag pass (lines 218 to 221).\<close>

definition flag_pass :: "opts \<Rightarrow> store \<Rightarrow> ObsChunk \<Rightarrow> error + ObsChunk" where
  "flag_pass u s c =
     ebind (nanmax (int_obs s c)) (\<lambda>m.
     Inr (if fgt m (fmul (o_flag_sigma u) (rms c)) then c\<lparr>flag := True\<rparr> else c))"

text \<open>One turn of the loop of lines 181 to 221, and the loop.\<close>

definition flag_step ::
  "prims \<Rightarrow> opts \<Rightarrow> store \<Rightarrow> ObsChunk \<Rightarrow> error + (store \<times> ObsChunk \<times> fl list list)" where
  "flag_step P u s c =
     (if flag c then Inr (s, c, [])
      else if length (freq_obs c) = 0 then Inr (s, c\<lparr>flag := True\<rparr>, [])
      else if id_chunk c \<in> set (o_drops u) then Inr (s, c\<lparr>flag := True\<rparr>, [])
      else
        ebind (if o_blank_lines u then blank_pass P u s c else Inr (s, c, [])) (\<lambda>(s1, c1, out).
        if o_flag_lines u then ebind (flag_pass u s1 c1) (\<lambda>c2. Inr (s1, c2, out))
        else Inr (s1, c1, out)))"

fun flagging ::
  "prims \<Rightarrow> opts \<Rightarrow> store \<Rightarrow> ObsChunk list \<Rightarrow> error + (store \<times> ObsChunk list \<times> fl list list)" where
  "flagging P u s [] = Inr (s, [], [])"
| "flagging P u s (c # cs) =
     ebind (flag_step P u s c) (\<lambda>(s1, c1, out1).
     ebind (flagging P u s1 cs) (\<lambda>(s2, cs2, out2).
     Inr (s2, c1 # cs2, out1 @ out2)))"

section \<open>Weighting and resampling\<close>

text \<open>
  Lines 224 to 230.  \<open>max_int\<close> is the maximum of \<open>peak_ints\<close>, the array built by the
  selection: one entry per candidate, flagged or not.  The two divisions and the square
  are exact here.  In float64 each of them is rounded: two nearby quotients can round to
  the same number, and \<open>rms**2\<close> can overflow to infinity (the weight is then 0) or
  underflow to zero (the weight is then infinite, or NaN for a zero quotient).  The
  weights of the code can therefore be equal where the exact ones differ: what the exact
  weights say about the code is at most their order, never a strict inequality.
\<close>

definition chunk_weight :: "fl \<Rightarrow> fl \<Rightarrow> fl \<Rightarrow> fl" where
  "chunk_weight pk max_int r = fdiv (fdiv pk max_int) (fmul r r)"

definition set_weight :: "store \<Rightarrow> fl \<Rightarrow> ObsChunk \<Rightarrow> ObsChunk" where
  "set_weight s max_int c =
     (if flag c then c
      else c\<lparr> weight := Some (chunk_weight (peak_int c) max_int (rms c)),
              int_weighted :=
                Some (map (\<lambda>x. fmul x (chunk_weight (peak_int c) max_int (rms c))) (int_obs s c)),
              int_sim_weighted :=
                Some (map (\<lambda>x. fmul x (chunk_weight (peak_int c) max_int (rms c))) (int_sim s c)) \<rparr>)"

definition weighting ::
  "store \<Rightarrow> fl list \<Rightarrow> ObsChunk list \<Rightarrow> error + ObsChunk list" where
  "weighting s peak_ints cs =
     ebind (py_max peak_ints) (\<lambda>max_int. Inr (map (set_weight s max_int) cs))"

text \<open>
  \<open>np.arange(start, stop, step)\<close> on Python floats.  NumPy divides \<open>stop - start\<close> by
  the step: a zero step raises ZeroDivisionError whatever the numerator, a quotient that
  is NaN raises ValueError and an infinite one OverflowError.  Otherwise the grid has
  \<open>ceil((stop - start)/step)\<close> points \<open>start + i*step\<close>, with one case apart: an
  infinite step makes the quotient zero, and the grid is then the single point \<open>start\<close>
  when the step points from \<open>start\<close> towards \<open>stop\<close> and empty when it points away (or
  when \<open>stop = start\<close>).  The quotient is exact here; float64 rounds it before the
  ceiling is taken, which can change the number of points by one, and a length beyond
  the memory available raises as well.  The grid of the examples, from \<open>-2\<close> to 2 in
  steps of \<open>1/4\<close>, is exact in float64 too.
\<close>

definition arange :: "fl \<Rightarrow> fl \<Rightarrow> fl \<Rightarrow> error + fl list" where
  "arange start stop step =
     (if step = Fin 0 then Inl ZeroDivisionError
      else if isnan start \<or> isnan stop \<or> isnan step then Inl ValueError
      else
        case fdiv (fsub stop start) step of
          NaN \<Rightarrow> Inl ValueError
        | PInf \<Rightarrow> Inl OverflowError
        | NInf \<Rightarrow> Inl OverflowError
        | Fin q \<Rightarrow>
            (case start of
               Fin a \<Rightarrow>
                 (case step of
                    Fin d \<Rightarrow> Inr (map (\<lambda>i. Fin (a + real i * d)) [0..<nat \<lceil>q\<rceil>])
                  | _ \<Rightarrow> Inr (if fgt (fmul (fsub stop start) step) (Fin 0) then [Fin a] else []))
             | _ \<Rightarrow> Inl ValueError))"

text \<open>
  \<open>np.interp(x, xp, fp, left, right)\<close>.  A query above the last sample point gives
  \<open>right\<close>, one below the first gives \<open>left\<close>; both tests come before the search.
  A single sample point is a case of its own: below it \<open>left\<close>, above it \<open>right\<close>,
  else its value.
  \<open>search\<close> is NumPy's scan for the interval (the position before the first sample
  point, from the second on, that the key is not at or above); on increasing sample
  points NumPy's bisection finds the same position.
\<close>

fun scan :: "fl \<Rightarrow> fl list \<Rightarrow> nat" where
  "scan key [] = 0"
| "scan key (a # as) = (if fge key a then Suc (scan key as) else 0)"

definition search :: "fl \<Rightarrow> fl list \<Rightarrow> nat" where
  "search key xp = scan key (tl xp)"

definition interp_at :: "fl list \<Rightarrow> fl list \<Rightarrow> fl \<Rightarrow> fl \<Rightarrow> fl \<Rightarrow> fl" where
  "interp_at xp fp left right x =
     (if length xp = 1 then
        (if flt x (hd xp) then left else if fgt x (hd xp) then right else hd fp)
      else if isnan x then x
      else if fgt x (last xp) then right
      else if flt x (hd xp) then left
      else
        let j = search x xp in
        if j = length xp - 1 then fp ! j
        else if feq (xp ! j) x then fp ! j
        else
          let slope = fdiv (fsub (fp ! (j + 1)) (fp ! j)) (fsub (xp ! (j + 1)) (xp ! j));
              r1 = fadd (fmul slope (fsub x (xp ! j))) (fp ! j);
              r2 = fadd (fmul slope (fsub x (xp ! (j + 1)))) (fp ! (j + 1))
          in if \<not> isnan r1 then r1
             else if isnan r2 \<and> feq (fp ! j) (fp ! (j + 1)) then fp ! j
             else r2)"

definition interp :: "fl list \<Rightarrow> fl list \<Rightarrow> fl list \<Rightarrow> fl \<Rightarrow> fl \<Rightarrow> error + fl list" where
  "interp xs xp fp left right =
     (if xp = [] then Inl ValueError
      else if length fp \<noteq> length xp then Inl ValueError
      else Inr (map (interp_at xp fp left right) xs))"

text \<open>An attribute that was never assigned raises AttributeError when it is read.\<close>

definition attr :: "'a option \<Rightarrow> error + 'a" where
  "attr v = (case v of None \<Rightarrow> Inl AttributeError | Some x \<Rightarrow> Inr x)"

text \<open>Lines 236 to 239.\<close>

definition resample :: "fl list \<Rightarrow> ObsChunk \<Rightarrow> error + ObsChunk" where
  "resample velocity_avg c =
     (if flag c then Inr c
      else
        ebind (attr (int_weighted c)) (\<lambda>iw.
        ebind (interp velocity_avg (velocity c) iw NaN NaN) (\<lambda>samp.
        ebind (attr (int_sim_weighted c)) (\<lambda>isw.
        ebind (interp velocity_avg (sim_velocity c) isw NaN NaN) (\<lambda>sim_samp.
        Inr (c\<lparr>int_samp := Some samp, int_sim_samp := Some sim_samp\<rparr>))))))"

section \<open>The compositor\<close>

text \<open>Lines 242 to 254: the rows of the surviving chunks, in candidate order.\<close>

definition survivors :: "ObsChunk list \<Rightarrow> ObsChunk list" where
  "survivors cs = filter (\<lambda>c. \<not> flag c) cs"

definition collect ::
  "ObsChunk list \<Rightarrow> error + (fl list list \<times> fl list \<times> fl list list)" where
  "collect cs =
     ebind (emap (\<lambda>c. ebind (attr (int_samp c)) (\<lambda>a.
                       ebind (attr (int_sim_samp c)) (\<lambda>b. Inr (a, rms c, b))))
              (survivors cs)) (\<lambda>rows.
     Inr (map fst rows, map (fst \<circ> snd) rows, map (snd \<circ> snd) rows))"

text \<open>
  Lines 257 to 266: for grid index \<open>x\<close> the inner loop runs over the rows \<open>y\<close> and adds
  \<open>interped_rms[y]**2\<close> unless \<open>interped_ints[y][x]\<close> is NaN.
\<close>

fun rms_loop :: "nat \<Rightarrow> fl list list \<Rightarrow> fl list \<Rightarrow> fl \<Rightarrow> fl" where
  "rms_loop x (row # rows) (r # rs) rms_sum =
     rms_loop x rows rs (if isnan (row ! x) then rms_sum else fadd rms_sum (fmul r r))"
| "rms_loop x _ _ rms_sum = rms_sum"

definition rms_array :: "nat \<Rightarrow> fl list list \<Rightarrow> fl list \<Rightarrow> fl list" where
  "rms_array n interped_ints interped_rms =
     map (\<lambda>x. rms_loop x interped_ints interped_rms (Fin 0)) [0..<n]"

text \<open>
  \<open>np.nansum(rows, axis=0)\<close> on the grid of \<open>n\<close> points; with no rows it is the
  scalar zero, which the division broadcasts over \<open>rms_arr\<close>.
\<close>

definition nansum_axis0 :: "nat \<Rightarrow> fl list list \<Rightarrow> fl list" where
  "nansum_axis0 n rows = map (\<lambda>x. nansum (map (\<lambda>row. row ! x) rows)) [0..<n]"

definition int_average :: "nat \<Rightarrow> fl list list \<Rightarrow> fl list \<Rightarrow> fl list" where
  "int_average n rows rms_arr = map (\<lambda>x. fdiv (nansum_axis0 n rows ! x) (rms_arr ! x)) [0..<n]"

record composite =
  rms_arr :: "fl list"
  int_avg :: "fl list"
  int_sim_avg :: "fl list"

definition compose :: "nat \<Rightarrow> fl list list \<Rightarrow> fl list \<Rightarrow> fl list list \<Rightarrow> composite" where
  "compose n interped_ints interped_rms interped_sim_ints =
     \<lparr> rms_arr = rms_array n interped_ints interped_rms,
       int_avg = int_average n interped_ints (rms_array n interped_ints interped_rms),
       int_sim_avg = int_average n interped_sim_ints (rms_array n interped_ints interped_rms) \<rparr>"

text \<open>Lines 273 to 285: \<open>xs[5:-5]\<close>, the final rms and the division by it.\<close>

definition trim :: "'a list \<Rightarrow> 'a list" where
  "trim xs = take (length xs - 10) (drop 5 xs)"

record Spectrum =
  sp_velocity :: "fl list"
  sp_snr :: "fl list"
  sp_int_sim :: "fl list"

definition finish :: "prims \<Rightarrow> fl list \<Rightarrow> composite \<Rightarrow> error + Spectrum" where
  "finish P velocity_avg k =
     ebind (get_rms P (trim (int_avg k))) (\<lambda>rms_tmp.
     Inr \<lparr> sp_velocity = trim velocity_avg,
           sp_snr = map (\<lambda>x. fdiv x rms_tmp) (trim (int_avg k)),
           sp_int_sim = map (\<lambda>x. fdiv x rms_tmp) (trim (int_sim_avg k)) \<rparr>)"

section \<open>The pipeline\<close>

text \<open>
  Lines 178 to 287 on the chunk list.  The result is the returned pair, the two
  intensity buffers as the call leaves them (the returned chunks view them) and the
  lines printed.
\<close>

definition stack_chunks ::
  "prims \<Rightarrow> opts \<Rightarrow> store \<Rightarrow> fl list \<Rightarrow> ObsChunk list
     \<Rightarrow> error + ((Spectrum \<times> ObsChunk list) \<times> store \<times> fl list list)" where
  "stack_chunks P u s peak_ints obs_chunks =
     ebind (flagging P u s obs_chunks) (\<lambda>(s1, cs1, out).
     ebind (weighting s1 peak_ints cs1) (\<lambda>cs2.
     ebind (arange (fneg (o_vel_width u)) (o_vel_width u) (o_v_res u)) (\<lambda>velocity_avg.
     ebind (emap (resample velocity_avg) cs2) (\<lambda>cs3.
     ebind (collect cs3) (\<lambda>(interped_ints, interped_rms, interped_sim_ints).
     ebind (finish P velocity_avg
              (compose (length velocity_avg) interped_ints interped_rms interped_sim_ints))
       (\<lambda>stacked_spectrum.
     Inr ((stacked_spectrum, cs3), s1, [o_vlsr u] # out)))))))"

definition velocity_stack ::
  "prims \<Rightarrow> params \<Rightarrow> error + ((Spectrum \<times> ObsChunk list) \<times> store \<times> fl list list)" where
  "velocity_stack P p =
     ebind (unpack P p) (\<lambda>u.
     ebind (lookup ''selection'' (p_selection p)) (\<lambda>sel.
     ebind (select P u sel) (\<lambda>(peak_freqs, peak_ints).
     ebind (extract_chunks P u \<lparr>obs_buf = o_int_arr u, sim_buf = o_int_sim u\<rparr>
              peak_freqs peak_ints) (\<lambda>obs_chunks.
     stack_chunks P u \<lparr>obs_buf = o_int_arr u, sim_buf = o_int_sim u\<rparr>
       peak_ints obs_chunks))))"

section \<open>Sums, and a rule to compare with\<close>

text \<open>\<open>fsum\<close> adds the entries of a list from the left, starting from zero.\<close>

definition fsum :: "fl list \<Rightarrow> fl" where
  "fsum xs = foldl fadd (Fin 0) xs"

text \<open>
  The rule for the simulated composite as the first claim words it, to be compared with
  \<open>int_sim_avg\<close>: a denominator that leaves out the rows whose simulated resample is
  missing at the index, that is, the noise accumulator taken over the simulated rows.
\<close>

definition claimed_int_sim_avg :: "nat \<Rightarrow> fl list \<Rightarrow> fl list list \<Rightarrow> fl list" where
  "claimed_int_sim_avg n interped_rms interped_sim_ints =
     int_average n interped_sim_ints (rms_array n interped_sim_ints interped_rms)"

text \<open>
  What a call hands back to its caller: the returned pair and the two buffers the
  returned chunks view, without the printed lines.
\<close>

definition returned ::
  "error + ((Spectrum \<times> ObsChunk list) \<times> store \<times> fl list list)
     \<Rightarrow> error + ((Spectrum \<times> ObsChunk list) \<times> store)" where
  "returned r = (case r of Inl e \<Rightarrow> Inl e | Inr (res, s, out) \<Rightarrow> Inr (res, s))"

text \<open>
  The samples of an array that fall within a velocity band \<open>[lo, hi]\<close>: the entries of
  \<open>xs\<close> whose velocity, at the same position of \<open>vel\<close>, is at least \<open>lo\<close> and at most
  \<open>hi\<close>.
\<close>

definition band_samples :: "fl \<times> fl \<Rightarrow> fl list \<Rightarrow> fl list \<Rightarrow> fl list" where
  "band_samples r vel xs =
     map snd (filter (\<lambda>(v, x). fge v (fst r) \<and> fge (snd r) v) (zip vel xs))"

section \<open>A worked example\<close>

text \<open>
  Concrete inputs for the examples below.  The stand-ins for the primitives are the
  simplest functions of the right shape: \<open>nearest\<close> is the position of the first
  element at the least distance, \<open>find_peaks\<close> reports the candidates at positions 1 and
  3 of the simulated axis, \<open>get_rms\<close> is constantly 2.  The frequencies are offsets
  (in MHz) from \<open>c0 = 299792.458\<close>, the value of \<open>ckm\<close>, so that around the first
  candidate one MHz is one km/s.
\<close>

fun first_min :: "fl list \<Rightarrow> nat \<Rightarrow> nat \<Rightarrow> fl \<Rightarrow> nat" where
  "first_min [] i best m = best"
| "first_min (d # ds) i best m =
     (if flt d m then first_min ds (Suc i) i d else first_min ds (Suc i) best m)"

text \<open>
  Modelled from the spec: \<open>find_nearest\<close> (molsim.utils) is not among the sources; it
  is the nearest-index lookup on a monotonic array of the spec's list of consumed
  primitives.  \<open>nearest xs v\<close> is the position of the element of \<open>xs\<close> at the least
  distance from \<open>v\<close>, the first such position when two elements are equally near.
\<close>

definition nearest :: "fl list \<Rightarrow> fl \<Rightarrow> error + nat" where
  "nearest xs v =
     (case map (\<lambda>x. fabs (fsub x v)) xs of
        [] \<Rightarrow> Inl ValueError
      | d # ds \<Rightarrow> Inr (first_min ds 1 0 d))"

definition c0 :: real where
  "c0 = 299792458 / 1000"

definition demo_prims :: prims where
  "demo_prims =
     \<lparr> find_peaks = (\<lambda>fs is res dv sim. Inr [1, 3]),
       find_nearest = nearest,
       find_nans = (\<lambda>xs. Inr ([], [])),
       get_res = (\<lambda>fs. Inr (Fin 1)),
       get_rms = (\<lambda>xs. Inr (Fin 2)),
       ckm = Fin c0 \<rparr>"

text \<open>
  The observed axis has nine channels and the simulated axis five; \<open>demo_params d\<close>
  excludes the chunk ids \<open>d\<close>.  The first candidate (at \<open>c0\<close>, peak 1) gets the observed
  window \<open>[1:5]\<close> and the simulated window \<open>[0:2]\<close>; the second (at \<open>c0 + 4\<close>, peak 4)
  gets \<open>[5:8]\<close> and \<open>[2:4]\<close>.
\<close>

definition demo_params :: "nat list \<Rightarrow> params" where
  "demo_params d =
     \<lparr> p_selection = Some ''peaks'',
       p_freq_arr = Some (map (\<lambda>k. Fin (c0 + k)) [-3, -2, -1, 0, 1, 2, 3, 4, 5]),
       p_int_arr = Some (map Fin [0, 1, 2, 4, 2, 0, 0, 0, 0]),
       p_freq_sim = Some (map (\<lambda>k. Fin (c0 + k)) [-1, 0, 1, 4, 5]),
       p_int_sim = Some (map Fin [0, 1, 0, 4, 0]),
       p_res_inp = None,
       p_dV = Some (Fin 1),
       p_dV_ext = None,
       p_vlsr = Some (Fin 0),
       p_vel_width = Some (Fin 2),
       p_v_res = Some (Fin (1 / 4)),
       p_drops = Some d,
       p_blank_lines = None,
       p_blank_keep_range = None,
       p_flag_lines = None,
       p_flag_sigma = None \<rparr>"

definition demo_opts :: "nat list \<Rightarrow> opts" where
  "demo_opts d =
     \<lparr> o_freq_arr = map (\<lambda>k. Fin (c0 + k)) [-3, -2, -1, 0, 1, 2, 3, 4, 5],
       o_int_arr = map Fin [0, 1, 2, 4, 2, 0, 0, 0, 0],
       o_freq_sim = map (\<lambda>k. Fin (c0 + k)) [-1, 0, 1, 4, 5],
       o_int_sim = map Fin [0, 1, 0, 4, 0],
       o_res_inp = Fin 1, o_dV = Fin 1, o_dV_ext = None, o_vlsr = Fin 0,
       o_vel_width = Fin 2, o_v_res = Fin (1 / 4), o_drops = d,
       o_blank_lines = False,
       o_blank_keep_range = (Fin (- 3), Fin 3),
       o_flag_lines = False, o_flag_sigma = Fin 5 \<rparr>"

definition demo_store :: store where
  "demo_store =
     \<lparr> obs_buf = map Fin [0, 1, 2, 4, 2, 0, 0, 0, 0], sim_buf = map Fin [0, 1, 0, 4, 0] \<rparr>"

definition demo_chunk0 :: ObsChunk where
  "demo_chunk0 =
     \<lparr> freq_obs = map (\<lambda>k. Fin (c0 + k)) [-2, -1, 0, 1], win_obs = (1, 5),
       freq_sim = map (\<lambda>k. Fin (c0 + k)) [-1, 0], win_sim = (0, 2),
       peak_int = Fin 1, id_chunk = 0, flag = False, rms = Fin 2, cfreq = Fin c0,
       velocity = map Fin [-2, -1, 0, 1], sim_velocity = map Fin [-1, 0],
       weight = None, int_weighted = None, int_sim_weighted = None,
       int_samp = None, int_sim_samp = None \<rparr>"

definition demo_chunk1 :: ObsChunk where
  "demo_chunk1 =
     \<lparr> freq_obs = map (\<lambda>k. Fin (c0 + k)) [2, 3, 4], win_obs = (5, 8),
       freq_sim = map (\<lambda>k. Fin (c0 + k)) [1, 4], win_sim = (2, 4),
       peak_int = Fin 4, id_chunk = 1, flag = False, rms = Fin 2, cfreq = Fin (c0 + 4),
       velocity = map (\<lambda>k. Fin (k * c0 / (c0 + 4))) [-2, -1, 0],
       sim_velocity = map (\<lambda>k. Fin (k * c0 / (c0 + 4))) [-3, 0],
       weight = None, int_weighted = None, int_sim_weighted = None,
       int_samp = None, int_sim_samp = None \<rparr>"

definition demo_dropped0 :: ObsChunk where
  "demo_dropped0 = demo_chunk0 \<lparr> flag := True \<rparr>"

definition demo_dropped1 :: ObsChunk where
  "demo_dropped1 = demo_chunk1 \<lparr> flag := True \<rparr>"

text \<open>The grid \<open>arange(-2, 2, 1/4)\<close> and the first chunk after weighting and resampling.\<close>

definition demo_grid :: "fl list" where
  "demo_grid = map Fin [- 2, - 7 / 4, - 3 / 2, - 5 / 4, - 1, - 3 / 4, - 1 / 2, - 1 / 4, 0,
                        1 / 4, 1 / 2, 3 / 4, 1, 5 / 4, 3 / 2, 7 / 4]"

definition demo_weighted0 :: ObsChunk where
  "demo_weighted0 =
     demo_chunk0
       \<lparr> weight := Some (Fin (1 / 16)),
         int_weighted := Some (map Fin [1 / 16, 1 / 8, 1 / 4, 1 / 8]),
         int_sim_weighted := Some (map Fin [0, 1 / 16]) \<rparr>"

definition demo_ints :: "fl list" where
  "demo_ints = map Fin [1 / 16, 5 / 64, 3 / 32, 7 / 64, 1 / 8, 5 / 32, 3 / 16,
                        7 / 32, 1 / 4, 7 / 32, 3 / 16, 5 / 32, 1 / 8] @ [NaN, NaN, NaN]"

definition demo_sims :: "fl list" where
  "demo_sims = [NaN, NaN, NaN, NaN] @ map Fin [0, 1 / 64, 1 / 32, 3 / 64, 1 / 16]
                 @ [NaN, NaN, NaN, NaN, NaN, NaN, NaN]"

definition demo_final0 :: ObsChunk where
  "demo_final0 = demo_weighted0 \<lparr> int_samp := Some demo_ints, int_sim_samp := Some demo_sims \<rparr>"

definition demo_composite :: composite where
  "demo_composite =
     \<lparr> rms_arr = map Fin [4, 4, 4, 4, 4, 4, 4, 4, 4, 4, 4, 4, 4, 0, 0, 0],
       int_avg = map Fin [1 / 64, 5 / 256, 3 / 128, 7 / 256, 1 / 32, 5 / 128, 3 / 64,
                   7 / 128, 1 / 16, 7 / 128, 3 / 64, 5 / 128, 1 / 32] @ [NaN, NaN, NaN],
       int_sim_avg = map Fin [0, 0, 0, 0, 0, 1 / 256, 1 / 128, 3 / 256, 1 / 64, 0, 0, 0, 0]
                   @ [NaN, NaN, NaN] \<rparr>"

definition demo_spectrum :: Spectrum where
  "demo_spectrum =
     \<lparr> sp_velocity = map Fin [- 3 / 4, - 1 / 2, - 1 / 4, 0, 1 / 4, 1 / 2],
       sp_snr = map Fin [5 / 256, 3 / 128, 7 / 256, 1 / 32, 7 / 256, 3 / 128],
       sp_int_sim = map Fin [1 / 512, 1 / 256, 3 / 512, 1 / 128, 0, 0] \<rparr>"

text \<open>The spectrum returned when both candidates are excluded.\<close>

definition nan_spectrum :: Spectrum where
  "nan_spectrum =
     \<lparr> sp_velocity = map Fin [- 3 / 4, - 1 / 2, - 1 / 4, 0, 1 / 4, 1 / 2],
       sp_snr = [NaN, NaN, NaN, NaN, NaN, NaN],
       sp_int_sim = [NaN, NaN, NaN, NaN, NaN, NaN] \<rparr>"

text \<open>
  The worked example with the blanking pass enabled: the second candidate is excluded,
  the threshold is half the rms (so 1) and the protected band is \<open>r\<close>; and the options
  unpacked from these parameters.
\<close>

definition demo_blank_params :: "fl \<times> fl \<Rightarrow> params" where
  "demo_blank_params r =
     (demo_params [1]) \<lparr> p_blank_lines := Some True, p_blank_keep_range := Some r,
                         p_flag_sigma := Some (Fin (1 / 2)) \<rparr>"

definition demo_blank_opts :: "fl \<times> fl \<Rightarrow> opts" where
  "demo_blank_opts r =
     (demo_opts [1]) \<lparr> o_blank_lines := True, o_blank_keep_range := r,
                       o_flag_sigma := Fin (1 / 2) \<rparr>"

text \<open>
  The run with the protected band \<open>[-7/5, 7/5]\<close>: the buffers after the loop, and the
  first chunk after weighting and resampling.
\<close>

definition inner_store :: store where
  "inner_store =
     \<lparr> obs_buf = map Fin [0, 1, 2, 4] @ [NaN] @ map Fin [0, 0, 0, 0],
       sim_buf = map Fin [0, 1, 0, 4, 0] \<rparr>"

definition inner_weighted0 :: ObsChunk where
  "inner_weighted0 =
     demo_chunk0
       \<lparr> weight := Some (Fin (1 / 16)),
         int_weighted := Some (map Fin [1 / 16, 1 / 8, 1 / 4] @ [NaN]),
         int_sim_weighted := Some (map Fin [0, 1 / 16]) \<rparr>"

definition inner_ints :: "fl list" where
  "inner_ints = map Fin [1 / 16, 5 / 64, 3 / 32, 7 / 64, 1 / 8, 5 / 32, 3 / 16, 7 / 32, 1 / 4]
                  @ [NaN, NaN, NaN, NaN, NaN, NaN, NaN]"

definition inner_final0 :: ObsChunk where
  "inner_final0 =
     inner_weighted0 \<lparr> int_samp := Some inner_ints, int_sim_samp := Some demo_sims \<rparr>"

definition inner_composite :: composite where
  "inner_composite =
     \<lparr> rms_arr = map Fin [4, 4, 4, 4, 4, 4, 4, 4, 4, 0, 0, 0, 0, 0, 0, 0],
       int_avg = map Fin [1 / 64, 5 / 256, 3 / 128, 7 / 256, 1 / 32, 5 / 128, 3 / 64,
                   7 / 128, 1 / 16] @ [NaN, NaN, NaN, NaN, NaN, NaN, NaN],
       int_sim_avg = map Fin [0, 0, 0, 0, 0, 1 / 256, 1 / 128, 3 / 256, 1 / 64]
                   @ [NaN, NaN, NaN, NaN, NaN, NaN, NaN] \<rparr>"

definition inner_spectrum :: Spectrum where
  "inner_spectrum =
     \<lparr> sp_velocity = map Fin [- 3 / 4, - 1 / 2, - 1 / 4, 0, 1 / 4, 1 / 2],
       sp_snr = map Fin [5 / 256, 3 / 128, 7 / 256, 1 / 32] @ [NaN, NaN],
       sp_int_sim = map Fin [1 / 512, 1 / 256, 3 / 512, 1 / 128] @ [NaN, NaN] \<rparr>"

text \<open>The same for the run with the protected band \<open>[0, 2]\<close>.\<close>

definition upper_store :: store where
  "upper_store =
     \<lparr> obs_buf = map Fin [0, 1, 2] @ [NaN, NaN] @ map Fin [0, 0, 0, 0],
       sim_buf = map Fin [0, 1, 0, 4, 0] \<rparr>"

definition upper_weighted0 :: ObsChunk where
  "upper_weighted0 =
     demo_chunk0
       \<lparr> weight := Some (Fin (1 / 16)),
         int_weighted := Some (map Fin [1 / 16, 1 / 8] @ [NaN, NaN]),
         int_sim_weighted := Some (map Fin [0, 1 / 16]) \<rparr>"

definition upper_ints :: "fl list" where
  "upper_ints = map Fin [1 / 16, 5 / 64, 3 / 32, 7 / 64, 1 / 8]
                  @ [NaN, NaN, NaN, NaN, NaN, NaN, NaN, NaN, NaN, NaN, NaN]"

definition upper_final0 :: ObsChunk where
  "upper_final0 =
     upper_weighted0 \<lparr> int_samp := Some upper_ints, int_sim_samp := Some demo_sims \<rparr>"

definition upper_composite :: composite where
  "upper_composite =
     \<lparr> rms_arr = map Fin [4, 4, 4, 4, 4, 0, 0, 0, 0, 0, 0, 0, 0, 0, 0, 0],
       int_avg = map Fin [1 / 64, 5 / 256, 3 / 128, 7 / 256, 1 / 32]
                   @ [NaN, NaN, NaN, NaN, NaN, NaN, NaN, NaN, NaN, NaN, NaN],
       int_sim_avg = map Fin [0, 0, 0, 0, 0] @ [PInf, PInf, PInf, PInf]
                   @ [NaN, NaN, NaN, NaN, NaN, NaN, NaN] \<rparr>"

definition upper_spectrum :: Spectrum where
  "upper_spectrum =
     \<lparr> sp_velocity = map Fin [- 3 / 4, - 1 / 2, - 1 / 4, 0, 1 / 4, 1 / 2],
       sp_snr = [NaN, NaN, NaN, NaN, NaN, NaN],
       sp_int_sim = [PInf, PInf, PInf, PInf, NaN, NaN] \<rparr>"

text \<open>
  The worked example on an observed axis cut to five channels: the second candidate, at
  \<open>c0 + 4\<close>, lies beyond the last channel \<open>c0 + 1\<close>, and both bounds of its observed
  window are found at position 4.
\<close>

definition short_params :: params where
  "short_params =
     (demo_params [])
       \<lparr> p_freq_arr := Some (map (\<lambda>k. Fin (c0 + k)) [-3, -2, -1, 0, 1]),
         p_int_arr := Some (map Fin [0, 1, 2, 4, 2]) \<rparr>"

section \<open>Basic facts\<close>

lemma ebind_Inr_iff: "ebind m f = Inr y \<longleftrightarrow> (\<exists>x. m = Inr x \<and> f x = Inr y)"
  by (cases m) (simp_all add: ebind_def)

lemma ebind_Inr: "ebind (Inr x) f = f x"
  by (simp add: ebind_def)

lemma ebind_Inl: "ebind (Inl e) f = Inl e"
  by (simp add: ebind_def)

lemma emap_Inr_all2: "emap f xs = Inr ys \<longleftrightarrow> list_all2 (\<lambda>x y. f x = Inr y) xs ys"
proof (induction xs arbitrary: ys)
  case Nil
  show ?case by auto
next
  case (Cons x xs)
  show ?case
    by (cases ys) (auto simp: ebind_Inr_iff Cons.IH)
qed

lemma emap_Inr_mem:
  assumes "emap f xs = Inr ys" and "y \<in> set ys"
  shows "\<exists>x\<in>set xs. f x = Inr y"
proof -
  from assms(1) have all2: "list_all2 (\<lambda>x y. f x = Inr y) xs ys" by (simp add: emap_Inr_all2)
  from assms(2) obtain i where i: "i < length ys" "ys ! i = y"
    by (auto simp: in_set_conv_nth)
  from all2 i have "f (xs ! i) = Inr y" "i < length xs"
    by (auto simp: list_all2_conv_all_nth)
  then show ?thesis by (auto intro: bexI [of _ "xs ! i"])
qed

subsection \<open>The maximum of the peak intensities\<close>

lemma fgt_irrefl: "\<not> fgt x x"
  by (cases x) auto

lemma fgt_asym: "fgt x y \<Longrightarrow> \<not> fgt y x"
  by (cases x; cases y) auto

lemma not_fgt_step:
  "\<not> isnan x \<Longrightarrow> \<not> isnan m \<Longrightarrow> \<not> isnan z \<Longrightarrow> \<not> fgt x m \<Longrightarrow> fgt z m \<Longrightarrow> \<not> fgt x z"
  by (cases x; cases m; cases z) auto

lemma fold_max_mem: "foldl (\<lambda>m v. if fgt v m then v else m) y ys \<in> set (y # ys)"
proof (induction ys arbitrary: y)
  case Nil
  show ?case by simp
next
  case (Cons a ys)
  have "foldl (\<lambda>m v. if fgt v m then v else m) (if fgt a y then a else y) ys
          \<in> set ((if fgt a y then a else y) # ys)"
    by (rule Cons.IH)
  then show ?case by (cases "fgt a y") auto
qed

lemma py_max_member: "py_max xs = Inr m \<Longrightarrow> m \<in> set xs"
  using fold_max_mem by (cases xs) (auto simp: py_max_def)

lemma fold_max_upper:
  assumes "\<forall>x\<in>set (y # ys). \<not> isnan x"
  shows "\<forall>x\<in>set (y # ys). \<not> fgt x (foldl (\<lambda>m v. if fgt v m then v else m) y ys)"
  using assms
proof (induction ys arbitrary: y rule: rev_induct)
  case Nil
  then show ?case by (simp add: fgt_irrefl)
next
  case (snoc z zs)
  let ?m = "foldl (\<lambda>m v. if fgt v m then v else m) y zs"
  have IH: "\<forall>x\<in>set (y # zs). \<not> fgt x ?m" using snoc by simp
  have mem: "?m \<in> set (y # zs)" by (rule fold_max_mem)
  have nn: "\<not> isnan ?m" "\<not> isnan z" using snoc.prems mem by auto
  show ?case
  proof (cases "fgt z ?m")
    case True
    have "\<not> fgt x z" if "x \<in> set (y # zs)" for x
    proof -
      have "\<not> fgt x ?m" using IH that by blast
      moreover have "\<not> isnan x" using snoc.prems that by auto
      ultimately show ?thesis using True nn not_fgt_step by blast
    qed
    then show ?thesis using True by (auto simp: fgt_irrefl)
  next
    case False
    then show ?thesis using IH by auto
  qed
qed

lemma py_max_upper:
  assumes "py_max xs = Inr m" and "\<forall>x\<in>set xs. \<not> isnan x"
  shows "\<forall>x\<in>set xs. \<not> fgt x m"
proof (cases xs)
  case Nil
  with assms show ?thesis by (simp add: py_max_def)
next
  case (Cons y ys)
  with assms(1) have m: "m = foldl (\<lambda>m v. if fgt v m then v else m) y ys"
    by (simp add: py_max_def)
  show ?thesis unfolding Cons m using fold_max_upper assms(2) Cons by blast
qed

subsection \<open>What resampling keeps, and the stages of a successful run\<close>

lemma resample_shape:
  assumes "resample g c2 = Inr c"
  shows "c = c2 \<or> (\<exists>a b. c = c2\<lparr>int_samp := Some a, int_sim_samp := Some b\<rparr>)"
  using assms by (auto simp: resample_def ebind_Inr_iff split: if_splits)

lemma resample_keeps:
  assumes "resample g c2 = Inr c"
  shows "flag c = flag c2" "weight c = weight c2" "int_weighted c = int_weighted c2"
    "int_sim_weighted c = int_sim_weighted c2" "peak_int c = peak_int c2" "rms c = rms c2"
    "win_obs c = win_obs c2" "win_sim c = win_sim c2" "velocity c = velocity c2"
    "sim_velocity c = sim_velocity c2" "id_chunk c = id_chunk c2"
  using resample_shape [OF assms] by auto

lemma stack_chunks_Inr:
  assumes "stack_chunks P u s peak_ints obs_chunks = Inr ((sp, cs), s', out)"
  obtains cs1 out1 max_int grid where
    "flagging P u s obs_chunks = Inr (s', cs1, out1)"
    "py_max peak_ints = Inr max_int"
    "arange (fneg (o_vel_width u)) (o_vel_width u) (o_v_res u) = Inr grid"
    "emap (resample grid) (map (set_weight s' max_int) cs1) = Inr cs"
    "out = [o_vlsr u] # out1"
  using assms
  by (auto simp: stack_chunks_def weighting_def ebind_Inr_iff)

subsection \<open>The worked example, stage by stage\<close>

lemma demo_unpack: "unpack demo_prims (demo_params d) = Inr (demo_opts d)"
  by (simp add: unpack_def unpack_v_res_def lookup_def demo_prims_def demo_params_def
      demo_opts_def ebind_def)

lemma demo_select:
  "select demo_prims (demo_opts d) ''peaks'' = Inr ([Fin c0, Fin (c0 + 4)], [Fin 1, Fin 4])"
  by (simp add: select_def select_peaks_def demo_prims_def demo_opts_def ebind_def
      take_idx_def getitem_def)

lemma demo_opts_store:
  "\<lparr>obs_buf = o_int_arr (demo_opts d), sim_buf = o_int_sim (demo_opts d)\<rparr> = demo_store"
  by (simp add: demo_opts_def demo_store_def)

lemma demo_extract:
  "extract_chunks demo_prims (demo_opts d) demo_store [Fin c0, Fin (c0 + 4)] [Fin 1, Fin 4]
     = Inr [demo_chunk0, demo_chunk1]"
  by (simp add: extract_chunks_def mk_chunk_def set_cfreq_def round_half_def getitem_def
      to_velocity_def py_slice_def nearest_def flt_def fsub_def
      demo_prims_def demo_opts_def demo_store_def demo_chunk0_def demo_chunk1_def
      ebind_def c0_def)

lemma demo_flagging:
  "flagging demo_prims (demo_opts [1]) demo_store [demo_chunk0, demo_chunk1]
     = Inr (demo_store, [demo_chunk0, demo_dropped1], [])"
  by (simp add: flag_step_def demo_opts_def demo_chunk0_def demo_chunk1_def demo_dropped1_def
      ebind_def)

lemma demo_weighting:
  "weighting demo_store [Fin 1, Fin 4] [demo_chunk0, demo_dropped1]
     = Inr [demo_weighted0, demo_dropped1]"
  by (simp add: weighting_def py_max_def set_weight_def chunk_weight_def int_obs_def int_sim_def
      py_slice_def demo_store_def demo_chunk0_def demo_chunk1_def demo_dropped1_def
      demo_weighted0_def ebind_def)

lemma demo_arange: "arange (fneg (Fin 2)) (Fin 2) (Fin (1 / 4)) = Inr demo_grid"
  by (simp add: arange_def fsub_def demo_grid_def upt_rec)

lemma demo_grid_length: "length demo_grid = 16"
  by (simp add: demo_grid_def)

lemma demo_resample0: "resample demo_grid demo_weighted0 = Inr demo_final0"
  by (simp add: resample_def attr_def interp_def interp_at_def search_def fge_def flt_def
      fsub_def demo_grid_def demo_chunk0_def demo_weighted0_def demo_final0_def
      demo_ints_def demo_sims_def ebind_def Let_def)

lemma demo_resample1: "resample g demo_dropped1 = Inr demo_dropped1"
  by (simp add: resample_def demo_dropped1_def)

lemma demo_collect:
  "collect [demo_final0, demo_dropped1] = Inr ([demo_ints], [Fin 2], [demo_sims])"
  by (simp add: collect_def survivors_def attr_def ebind_def demo_final0_def demo_weighted0_def
      demo_chunk0_def demo_dropped1_def)

lemma demo_compose: "compose 16 [demo_ints] [Fin 2] [demo_sims] = demo_composite"
  by (simp add: compose_def rms_array_def int_average_def nansum_axis0_def nansum_def
      demo_ints_def demo_sims_def demo_composite_def upt_rec)

lemma demo_finish: "finish demo_prims demo_grid demo_composite = Inr demo_spectrum"
  by (simp add: finish_def trim_def demo_composite_def demo_grid_def demo_prims_def
      demo_spectrum_def ebind_def)

lemma demo_stack:
  "stack_chunks demo_prims (demo_opts [1]) demo_store [Fin 1, Fin 4] [demo_chunk0, demo_chunk1]
     = Inr ((demo_spectrum, [demo_final0, demo_dropped1]), demo_store, [[Fin 0]])"
proof -
  have o: "o_vel_width (demo_opts [1]) = Fin 2" "o_v_res (demo_opts [1]) = Fin (1 / 4)"
    "o_vlsr (demo_opts [1]) = Fin 0"
    by (simp_all add: demo_opts_def)
  show ?thesis
    unfolding stack_chunks_def demo_flagging o demo_arange
    by (simp add: ebind_def demo_weighting demo_resample0 demo_resample1 demo_collect
        demo_grid_length demo_compose demo_finish)
qed

lemma demo_selection: "lookup ''selection'' (p_selection (demo_params d)) = Inr ''peaks''"
  by (simp add: lookup_def demo_params_def)

lemma demo_run:
  "velocity_stack demo_prims (demo_params [1])
     = Inr ((demo_spectrum, [demo_final0, demo_dropped1]), demo_store, [[Fin 0]])"
  by (simp only: velocity_stack_def demo_unpack demo_selection demo_select demo_opts_store
      demo_extract demo_stack ebind_Inr prod.case)

section \<open>The noise accumulator and the composite\<close>

lemma rms_loop_filter:
  "rms_loop x rows rs acc =
     foldl fadd acc (map (\<lambda>(row, r). fmul r r)
       (filter (\<lambda>(row, r). \<not> isnan (row ! x)) (zip rows rs)))"
  by (induction x rows rs acc rule: rms_loop.induct) simp_all

lemma collect_rows:
  assumes "collect cs = Inr (ints, rmss, sims)"
  shows "ints = map (\<lambda>c. the (int_samp c)) (survivors cs)"
    and "rmss = map rms (survivors cs)"
    and "sims = map (\<lambda>c. the (int_sim_samp c)) (survivors cs)"
proof -
  let ?f = "\<lambda>c. ebind (attr (int_samp c)) (\<lambda>a.
              ebind (attr (int_sim_samp c)) (\<lambda>b. Inr (a, rms c, b)))"
  from assms obtain rows where rows: "emap ?f (survivors cs) = Inr rows"
    and eq: "ints = map fst rows" "rmss = map (fst \<circ> snd) rows" "sims = map (snd \<circ> snd) rows"
    by (auto simp: collect_def ebind_Inr_iff)
  from rows have all2: "list_all2 (\<lambda>c y. ?f c = Inr y) (survivors cs) rows"
    by (simp add: emap_Inr_all2)
  have pt: "y = (the (int_samp c), rms c, the (int_sim_samp c))" if "?f c = Inr y" for c y
    using that by (auto simp: ebind_Inr_iff attr_def split: option.splits)
  from all2 have "list_all2 (\<lambda>c y. y = (the (int_samp c), rms c, the (int_sim_samp c)))
      (survivors cs) rows"
    by (rule list_all2_mono) (rule pt)
  then have "rows = map (\<lambda>c. (the (int_samp c), rms c, the (int_sim_samp c))) (survivors cs)"
    by (induction rule: list_all2_induct) simp_all
  then show "ints = map (\<lambda>c. the (int_samp c)) (survivors cs)"
    and "rmss = map rms (survivors cs)"
    and "sims = map (\<lambda>c. the (int_sim_samp c)) (survivors cs)"
    by (simp_all add: eq comp_def)
qed

lemma rms_array_nth:
  "x < n \<Longrightarrow> rms_array n rows rs ! x = rms_loop x rows rs (Fin 0)"
  by (simp add: rms_array_def)

lemma int_average_nth:
  "x < n \<Longrightarrow> int_average n rows d ! x = fdiv (nansum (map (\<lambda>row. row ! x) rows)) (d ! x)"
  by (simp add: int_average_def nansum_axis0_def)

text \<open>
  C1, as the code has it.  For the rows collected from a chunk list and every grid
  index \<open>x\<close>: \<open>rms_arr[x]\<close> is the sum of \<open>rms\<^sup>2\<close> over exactly the chunks that are not
  flagged and whose \<open>int_samp\<close> is not NaN at \<open>x\<close>; \<open>int_avg[x]\<close> is the NaN-skipping sum
  of \<open>int_samp[x]\<close> over the unflagged chunks divided by \<open>rms_arr[x]\<close>; and
  \<open>int_sim_avg[x]\<close> is the NaN-skipping sum of \<open>int_sim_samp[x]\<close> divided by the same
  \<open>rms_arr[x]\<close>, whose mask is that of the observed resample.
\<close>

theorem composite_rule:
  assumes "collect cs = Inr (ints, rmss, sims)" and "x < n"
  shows "rms_arr (compose n ints rmss sims) ! x =
           fsum (map (\<lambda>c. fmul (rms c) (rms c))
             (filter (\<lambda>c. \<not> flag c \<and> \<not> isnan (the (int_samp c) ! x)) cs))
    \<and> int_avg (compose n ints rmss sims) ! x =
           fdiv (nansum (map (\<lambda>c. the (int_samp c) ! x) (survivors cs)))
                (rms_arr (compose n ints rmss sims) ! x)
    \<and> int_sim_avg (compose n ints rmss sims) ! x =
           fdiv (nansum (map (\<lambda>c. the (int_sim_samp c) ! x) (survivors cs)))
                (rms_arr (compose n ints rmss sims) ! x)"
proof -
  note rows = collect_rows [OF assms(1)]
  have z: "zip ints rmss = map (\<lambda>c. (the (int_samp c), rms c)) (survivors cs)"
    by (simp add: rows zip_map_map zip_same_conv_map)
  have "rms_loop x ints rmss (Fin 0) =
      fsum (map (\<lambda>c. fmul (rms c) (rms c))
        (filter (\<lambda>c. \<not> isnan (the (int_samp c) ! x)) (survivors cs)))"
    by (simp add: rms_loop_filter z filter_map comp_def fsum_def)
  also have "filter (\<lambda>c. \<not> isnan (the (int_samp c) ! x)) (survivors cs) =
      filter (\<lambda>c. \<not> flag c \<and> \<not> isnan (the (int_samp c) ! x)) cs"
    by (simp add: survivors_def)
  finally have a: "rms_arr (compose n ints rmss sims) ! x =
           fsum (map (\<lambda>c. fmul (rms c) (rms c))
             (filter (\<lambda>c. \<not> flag c \<and> \<not> isnan (the (int_samp c) ! x)) cs))"
    using assms(2) by (simp add: compose_def rms_array_nth)
  have b: "int_avg (compose n ints rmss sims) ! x =
           fdiv (nansum (map (\<lambda>c. the (int_samp c) ! x) (survivors cs)))
                (rms_arr (compose n ints rmss sims) ! x)"
    using assms(2) by (simp add: compose_def int_average_nth rows comp_def)
  have c: "int_sim_avg (compose n ints rmss sims) ! x =
           fdiv (nansum (map (\<lambda>c. the (int_sim_samp c) ! x) (survivors cs)))
                (rms_arr (compose n ints rmss sims) ! x)"
    using assms(2) by (simp add: compose_def int_average_nth rows comp_def)
  from a b c show ?thesis by blast
qed

lemma demo_rows_at_10: "demo_ints ! 10 = Fin (3 / 16)" "demo_sims ! 10 = NaN"
  by (simp_all add: demo_ints_def demo_sims_def)

lemma demo_composite_at_10:
  "rms_arr demo_composite ! 10 = Fin 4" "int_avg demo_composite ! 10 = Fin (3 / 64)"
  "int_sim_avg demo_composite ! 10 = Fin 0"
  by (simp_all add: demo_composite_def)

text \<open>
  In the worked example, at grid index 10 (velocity \<open>1/2\<close>) the surviving chunk has an
  observed resample and no simulated one.
\<close>

theorem composite_rule_witness:
  "collect [demo_final0, demo_dropped1] = Inr ([demo_ints], [Fin 2], [demo_sims])
   \<and> (10::nat) < 16
   \<and> filter (\<lambda>c. \<not> flag c \<and> \<not> isnan (the (int_samp c) ! 10)) [demo_final0, demo_dropped1]
       = [demo_final0]
   \<and> survivors [demo_final0, demo_dropped1] = [demo_final0]
   \<and> rms_arr (compose 16 [demo_ints] [Fin 2] [demo_sims]) ! 10 = Fin 4
   \<and> int_avg (compose 16 [demo_ints] [Fin 2] [demo_sims]) ! 10 = fdiv (Fin (3 / 16)) (Fin 4)
   \<and> int_sim_avg (compose 16 [demo_ints] [Fin 2] [demo_sims]) ! 10 = fdiv (Fin 0) (Fin 4)"
proof -
  have lt: "(10::nat) < 16" by simp
  have fl: "flag demo_dropped1" "\<not> flag demo_final0" "rms demo_final0 = Fin 2"
    "int_samp demo_final0 = Some demo_ints" "int_sim_samp demo_final0 = Some demo_sims"
    by (simp_all add: demo_dropped1_def demo_final0_def demo_weighted0_def demo_chunk0_def)
  have flt: "filter (\<lambda>c. \<not> flag c \<and> \<not> isnan (the (int_samp c) ! 10))
      [demo_final0, demo_dropped1] = [demo_final0]"
    by (simp add: fl demo_rows_at_10)
  have sv: "survivors [demo_final0, demo_dropped1] = [demo_final0]"
    by (simp add: survivors_def fl)
  from composite_rule [OF demo_collect lt]
  have "rms_arr (compose 16 [demo_ints] [Fin 2] [demo_sims]) ! 10 = Fin 4
    \<and> int_avg (compose 16 [demo_ints] [Fin 2] [demo_sims]) ! 10 = fdiv (Fin (3 / 16)) (Fin 4)
    \<and> int_sim_avg (compose 16 [demo_ints] [Fin 2] [demo_sims]) ! 10 = fdiv (Fin 0) (Fin 4)"
    unfolding flt sv by (simp add: fl demo_rows_at_10 fsum_def nansum_def)
  with demo_collect lt flt sv show ?thesis by blast
qed

text \<open>
  The claim's rule for the simulated composite fails there: the chunk is not left out of
  the denominator of \<open>int_sim_avg\<close>, which is \<open>0/4\<close> and ends as the sample 0 of the
  returned spectrum, where the rule of the claim gives \<open>0/0\<close>, a missing value.
\<close>

theorem sim_denominator_counterexample:
  "velocity_stack demo_prims (demo_params [1])
     = Inr ((demo_spectrum, [demo_final0, demo_dropped1]), demo_store, [[Fin 0]])
   \<and> collect [demo_final0, demo_dropped1] = Inr ([demo_ints], [Fin 2], [demo_sims])
   \<and> demo_ints ! 10 = Fin (3 / 16) \<and> demo_sims ! 10 = NaN
   \<and> rms_arr (compose 16 [demo_ints] [Fin 2] [demo_sims]) ! 10 = Fin 4
   \<and> int_sim_avg (compose 16 [demo_ints] [Fin 2] [demo_sims]) ! 10 = Fin 0
   \<and> claimed_int_sim_avg 16 [Fin 2] [demo_sims] ! 10 = NaN
   \<and> sp_int_sim demo_spectrum ! 5 = Fin 0"
proof -
  have "claimed_int_sim_avg 16 [Fin 2] [demo_sims] ! 10 = NaN"
    by (simp add: claimed_int_sim_avg_def int_average_nth rms_array_nth demo_rows_at_10
        nansum_def)
  moreover have "sp_int_sim demo_spectrum ! 5 = Fin 0"
    by (simp add: demo_spectrum_def)
  ultimately show ?thesis
    using demo_run demo_collect demo_rows_at_10 demo_composite_at_10
    by (simp add: demo_compose)
qed

section \<open>The weight of a surviving chunk\<close>

lemma survivor_weight:
  assumes "stack_chunks P u s peak_ints obs_chunks = Inr ((sp, cs), s', out)"
    and "c \<in> set cs" and "\<not> flag c"
  shows "\<exists>max_int. py_max peak_ints = Inr max_int
     \<and> ((\<forall>x\<in>set peak_ints. \<not> isnan x) \<longrightarrow>
          max_int \<in> set peak_ints \<and> (\<forall>x\<in>set peak_ints. \<not> fgt x max_int))
     \<and> weight c = Some (fdiv (fdiv (peak_int c) max_int) (fmul (rms c) (rms c)))
     \<and> int_weighted c =
         Some (map (\<lambda>x. fmul x (fdiv (fdiv (peak_int c) max_int) (fmul (rms c) (rms c))))
                 (int_obs s' c))
     \<and> int_sim_weighted c =
         Some (map (\<lambda>x. fmul x (fdiv (fdiv (peak_int c) max_int) (fmul (rms c) (rms c))))
                 (int_sim s' c))"
proof -
  from assms(1) obtain cs1 out1 max_int grid where
    mx: "py_max peak_ints = Inr max_int" and
    rs: "emap (resample grid) (map (set_weight s' max_int) cs1) = Inr cs"
    by (rule stack_chunks_Inr)
  from emap_Inr_mem [OF rs assms(2)] obtain c1 where
    c1: "c1 \<in> set cs1" and r: "resample grid (set_weight s' max_int c1) = Inr c"
    by auto
  note k = resample_keeps [OF r]
  have nf: "\<not> flag c1"
    using assms(3) k(1) by (auto simp: set_weight_def split: if_splits)
  let ?w = "chunk_weight (peak_int c1) max_int (rms c1)"
  have sw: "set_weight s' max_int c1 =
      c1\<lparr> weight := Some ?w,
          int_weighted := Some (map (\<lambda>x. fmul x ?w) (int_obs s' c1)),
          int_sim_weighted := Some (map (\<lambda>x. fmul x ?w) (int_sim s' c1)) \<rparr>"
    using nf by (simp add: set_weight_def)
  have same: "peak_int c = peak_int c1" "rms c = rms c1"
    "int_obs s' c = int_obs s' c1" "int_sim s' c = int_sim s' c1"
    using k by (simp_all add: sw int_obs_def int_sim_def)
  have "weight c = Some ?w" "int_weighted c = Some (map (\<lambda>x. fmul x ?w) (int_obs s' c1))"
    "int_sim_weighted c = Some (map (\<lambda>x. fmul x ?w) (int_sim s' c1))"
    using k by (simp_all add: sw)
  then have fields: "weight c = Some (fdiv (fdiv (peak_int c) max_int) (fmul (rms c) (rms c)))"
    "int_weighted c =
       Some (map (\<lambda>x. fmul x (fdiv (fdiv (peak_int c) max_int) (fmul (rms c) (rms c))))
               (int_obs s' c))"
    "int_sim_weighted c =
       Some (map (\<lambda>x. fmul x (fdiv (fdiv (peak_int c) max_int) (fmul (rms c) (rms c))))
               (int_sim s' c))"
    by (simp_all add: same chunk_weight_def)
  have "(\<forall>x\<in>set peak_ints. \<not> isnan x) \<longrightarrow>
          max_int \<in> set peak_ints \<and> (\<forall>x\<in>set peak_ints. \<not> fgt x max_int)"
    using py_max_member [OF mx] py_max_upper [OF mx] by blast
  with mx fields show ?thesis by blast
qed

text \<open>
  C2.  Whenever the pipeline returns, every chunk of the returned list that is not
  flagged has the weight \<open>(peak_int / max_int) / rms\<^sup>2\<close>, where \<open>max_int\<close> is \<open>max\<close> of
  the peak intensities of all candidates (a member of that list that no member exceeds,
  when none of them is NaN), and its \<open>int_weighted\<close> and \<open>int_sim_weighted\<close> are its
  \<open>int_obs\<close> and \<open>int_sim\<close> multiplied sample by sample with that weight.
\<close>

theorem weight_rule:
  assumes "stack_chunks P u s peak_ints obs_chunks = Inr ((sp, cs), s', out)"
    and "c \<in> set cs" and "\<not> flag c"
  shows "\<exists>max_int. py_max peak_ints = Inr max_int
     \<and> ((\<forall>x\<in>set peak_ints. \<not> isnan x) \<longrightarrow>
          max_int \<in> set peak_ints \<and> (\<forall>x\<in>set peak_ints. \<not> fgt x max_int))
     \<and> weight c = Some (fdiv (fdiv (peak_int c) max_int) (fmul (rms c) (rms c)))
     \<and> int_weighted c =
         Some (map (\<lambda>x. fmul x (fdiv (fdiv (peak_int c) max_int) (fmul (rms c) (rms c))))
                 (int_obs s' c))
     \<and> int_sim_weighted c =
         Some (map (\<lambda>x. fmul x (fdiv (fdiv (peak_int c) max_int) (fmul (rms c) (rms c))))
                 (int_sim s' c))"
  using assms by (rule survivor_weight)

text \<open>
  In the worked example the second candidate is dropped and the first survives with
  peak 1 and rms 2: its weight is \<open>(1/4)/4\<close>.
\<close>

theorem weight_rule_witness:
  "stack_chunks demo_prims (demo_opts [1]) demo_store [Fin 1, Fin 4] [demo_chunk0, demo_chunk1]
     = Inr ((demo_spectrum, [demo_final0, demo_dropped1]), demo_store, [[Fin 0]])
   \<and> demo_final0 \<in> set [demo_final0, demo_dropped1] \<and> \<not> flag demo_final0
   \<and> py_max [Fin 1, Fin 4] = Inr (Fin 4)
   \<and> weight demo_final0 = Some (Fin (1 / 16))
   \<and> int_obs demo_store demo_final0 = map Fin [1, 2, 4, 2]
   \<and> int_weighted demo_final0 = Some (map Fin [1 / 16, 1 / 8, 1 / 4, 1 / 8])
   \<and> int_sim demo_store demo_final0 = map Fin [0, 1]
   \<and> int_sim_weighted demo_final0 = Some (map Fin [0, 1 / 16])"
proof -
  have m: "demo_final0 \<in> set [demo_final0, demo_dropped1]" by simp
  have f: "\<not> flag demo_final0"
    by (simp add: demo_final0_def demo_weighted0_def demo_chunk0_def)
  have mx: "py_max [Fin 1, Fin 4] = Inr (Fin 4)" by (simp add: py_max_def)
  have v: "int_obs demo_store demo_final0 = map Fin [1, 2, 4, 2]"
    "int_sim demo_store demo_final0 = map Fin [0, 1]"
    "peak_int demo_final0 = Fin 1" "rms demo_final0 = Fin 2"
    by (simp_all add: int_obs_def int_sim_def py_slice_def demo_store_def demo_final0_def
        demo_weighted0_def demo_chunk0_def)
  from weight_rule [OF demo_stack m f] mx v
  have "weight demo_final0 = Some (Fin (1 / 16))"
    "int_weighted demo_final0 = Some (map Fin [1 / 16, 1 / 8, 1 / 4, 1 / 8])"
    "int_sim_weighted demo_final0 = Some (map Fin [0, 1 / 16])"
    by simp_all
  with demo_stack m f mx v show ?thesis by simp
qed

section \<open>Resampling never extrapolates\<close>

lemma interp_at_outside:
  assumes "xp \<noteq> []"
    and "(\<forall>v\<in>set xp. flt x v) \<or> (\<forall>v\<in>set xp. fgt x v)"
  shows "interp_at xp fp NaN NaN x = NaN"
proof -
  from assms(1) have mem: "hd xp \<in> set xp" "last xp \<in> set xp" by auto
  show ?thesis
  proof (cases "length xp = 1")
    case True
    then have "last xp = hd xp" by (cases xp) auto
    with assms(2) mem have "flt x (hd xp) \<or> fgt x (hd xp)" by metis
    then show ?thesis using True by (auto simp: interp_at_def)
  next
    case one: False
    show ?thesis
    proof (cases "isnan x")
      case True
      then have "x = NaN" by (cases x) auto
      then show ?thesis using one by (simp add: interp_at_def)
    next
      case False
      from assms(2) have "fgt x (last xp) \<or> flt x (hd xp)"
        using mem by blast
      then show ?thesis using False one by (auto simp: interp_at_def)
    qed
  qed
qed

lemma interp_outside:
  assumes "interp xs xp fp NaN NaN = Inr ys"
  shows "xp \<noteq> [] \<and> length ys = length xs \<and>
    (\<forall>i<length xs. ((\<forall>v\<in>set xp. flt (xs ! i) v) \<or> (\<forall>v\<in>set xp. fgt (xs ! i) v))
        \<longrightarrow> ys ! i = NaN)"
proof -
  from assms have ne: "xp \<noteq> []" and ys: "ys = map (interp_at xp fp NaN NaN) xs"
    by (auto simp: interp_def split: if_splits)
  show ?thesis using ne by (simp add: ys interp_at_outside)
qed

lemma arange_points:
  assumes "arange start stop step = Inr grid"
  shows "\<exists>a. start = Fin a
     \<and> (\<forall>i<length grid.
          grid ! i = (if i = 0 then Fin a else fadd (Fin a) (fmul (Fin (real i)) step)))
     \<and> (\<forall>d. step = Fin d \<longrightarrow> (\<forall>i<length grid. grid ! i = Fin (a + real i * d)))"
proof (cases step)
  case (Fin d)
  with assms have "\<exists>a n. start = Fin a \<and> grid = map (\<lambda>i. Fin (a + real i * d)) [0..<n]"
    by (auto simp: arange_def split: if_splits fl.splits)
  then show ?thesis using Fin by auto
next
  case PInf
  with assms have "\<exists>a. start = Fin a \<and> (grid = [Fin a] \<or> grid = [])"
    by (auto simp: arange_def split: if_splits fl.splits)
  then show ?thesis using PInf by auto
next
  case NInf
  with assms have "\<exists>a. start = Fin a \<and> (grid = [Fin a] \<or> grid = [])"
    by (auto simp: arange_def split: if_splits fl.splits)
  then show ?thesis using NInf by auto
next
  case NaN
  with assms show ?thesis by (simp add: arange_def)
qed

text \<open>
  C3.  Whenever the pipeline returns, the grid is \<open>arange(-vel_width, vel_width, v_res)\<close>,
  its first point is \<open>-vel_width\<close> and its points are \<open>-vel_width + i * v_res\<close>, and for
  every chunk of the returned list that
  is not flagged \<open>int_samp\<close> and \<open>int_sim_samp\<close> have one entry per grid point; the
  entry is NaN at every grid point that lies below all of the chunk's \<open>velocity\<close>
  samples or above all of them (for \<open>int_sim_samp\<close>: all of its \<open>sim_velocity\<close>
  samples).  Both velocity axes of such a chunk are non-empty.
\<close>

theorem resample_outside_missing:
  assumes "stack_chunks P u s peak_ints obs_chunks = Inr ((sp, cs), s', out)"
    and "c \<in> set cs" and "\<not> flag c"
  shows "\<exists>grid samp sim_samp w.
      arange (fneg (o_vel_width u)) (o_vel_width u) (o_v_res u) = Inr grid
    \<and> o_vel_width u = Fin w
    \<and> (\<forall>i<length grid.
          grid ! i = (if i = 0 then Fin (- w)
                      else fadd (Fin (- w)) (fmul (Fin (real i)) (o_v_res u))))
    \<and> (\<forall>d. o_v_res u = Fin d \<longrightarrow> (\<forall>i<length grid. grid ! i = Fin (- w + real i * d)))
    \<and> int_samp c = Some samp \<and> int_sim_samp c = Some sim_samp
    \<and> length samp = length grid \<and> length sim_samp = length grid
    \<and> velocity c \<noteq> [] \<and> sim_velocity c \<noteq> []
    \<and> (\<forall>i<length grid.
          ((\<forall>v\<in>set (velocity c). flt (grid ! i) v) \<or> (\<forall>v\<in>set (velocity c). fgt (grid ! i) v))
            \<longrightarrow> samp ! i = NaN)
    \<and> (\<forall>i<length grid.
          ((\<forall>v\<in>set (sim_velocity c). flt (grid ! i) v)
             \<or> (\<forall>v\<in>set (sim_velocity c). fgt (grid ! i) v))
            \<longrightarrow> sim_samp ! i = NaN)"
proof -
  from assms(1) obtain cs1 out1 max_int grid where
    ar: "arange (fneg (o_vel_width u)) (o_vel_width u) (o_v_res u) = Inr grid" and
    rs: "emap (resample grid) (map (set_weight s' max_int) cs1) = Inr cs"
    by (rule stack_chunks_Inr)
  from arange_points [OF ar] obtain a where
    a: "fneg (o_vel_width u) = Fin a" and
    pts: "\<forall>i<length grid.
            grid ! i = (if i = 0 then Fin a else fadd (Fin a) (fmul (Fin (real i)) (o_v_res u)))"
         "\<forall>d. o_v_res u = Fin d \<longrightarrow> (\<forall>i<length grid. grid ! i = Fin (a + real i * d))"
    by blast
  from a obtain w where w: "o_vel_width u = Fin w" "a = - w"
    by (cases "o_vel_width u") auto
  from pts have pts':
    "\<forall>i<length grid.
       grid ! i = (if i = 0 then Fin (- w)
                   else fadd (Fin (- w)) (fmul (Fin (real i)) (o_v_res u)))"
    "\<forall>d. o_v_res u = Fin d \<longrightarrow> (\<forall>i<length grid. grid ! i = Fin (- w + real i * d))"
    unfolding w(2) by blast+
  from emap_Inr_mem [OF rs assms(2)] obtain c2 where r: "resample grid c2 = Inr c"
    by auto
  note k = resample_keeps [OF r]
  have nf: "\<not> flag c2" using assms(3) k(1) by simp
  from r nf obtain iw isw samp sim_samp where
    i1: "interp grid (velocity c2) iw NaN NaN = Inr samp" and
    i2: "interp grid (sim_velocity c2) isw NaN NaN = Inr sim_samp" and
    c: "c = c2\<lparr>int_samp := Some samp, int_sim_samp := Some sim_samp\<rparr>"
    by (auto simp: resample_def ebind_Inr_iff)
  have f: "int_samp c = Some samp" "int_sim_samp c = Some sim_samp"
    "velocity c = velocity c2" "sim_velocity c = sim_velocity c2"
    by (simp_all add: c)
  have "int_samp c = Some samp \<and> int_sim_samp c = Some sim_samp
    \<and> length samp = length grid \<and> length sim_samp = length grid
    \<and> velocity c \<noteq> [] \<and> sim_velocity c \<noteq> []
    \<and> (\<forall>i<length grid.
          ((\<forall>v\<in>set (velocity c). flt (grid ! i) v) \<or> (\<forall>v\<in>set (velocity c). fgt (grid ! i) v))
            \<longrightarrow> samp ! i = NaN)
    \<and> (\<forall>i<length grid.
          ((\<forall>v\<in>set (sim_velocity c). flt (grid ! i) v)
             \<or> (\<forall>v\<in>set (sim_velocity c). fgt (grid ! i) v))
            \<longrightarrow> sim_samp ! i = NaN)"
    using interp_outside [OF i1] interp_outside [OF i2] by (simp add: f)
  with ar w(1) pts' show ?thesis by blast
qed

text \<open>
  In the worked example the surviving chunk has \<open>velocity = [-2, -1, 0, 1]\<close> and
  \<open>sim_velocity = [-1, 0]\<close>: the grid point \<open>5/4\<close> (index 13) is above the first range
  and the grid point \<open>-2\<close> (index 0) below the second.
\<close>

theorem resample_outside_missing_witness:
  "stack_chunks demo_prims (demo_opts [1]) demo_store [Fin 1, Fin 4] [demo_chunk0, demo_chunk1]
     = Inr ((demo_spectrum, [demo_final0, demo_dropped1]), demo_store, [[Fin 0]])
   \<and> demo_final0 \<in> set [demo_final0, demo_dropped1] \<and> \<not> flag demo_final0
   \<and> velocity demo_final0 = map Fin [- 2, - 1, 0, 1]
   \<and> sim_velocity demo_final0 = map Fin [- 1, 0]
   \<and> demo_grid ! 13 = Fin (5 / 4) \<and> demo_grid ! 0 = Fin (- 2)
   \<and> int_samp demo_final0 = Some demo_ints \<and> demo_ints ! 13 = NaN
   \<and> int_sim_samp demo_final0 = Some demo_sims \<and> demo_sims ! 0 = NaN"
proof -
  have m: "demo_final0 \<in> set [demo_final0, demo_dropped1]" by simp
  have f: "\<not> flag demo_final0"
    by (simp add: demo_final0_def demo_weighted0_def demo_chunk0_def)
  have v: "velocity demo_final0 = map Fin [- 2, - 1, 0, 1]"
    "sim_velocity demo_final0 = map Fin [- 1, 0]"
    "int_samp demo_final0 = Some demo_ints" "int_sim_samp demo_final0 = Some demo_sims"
    by (simp_all add: demo_final0_def demo_weighted0_def demo_chunk0_def)
  have o: "o_vel_width (demo_opts [1]) = Fin 2" "o_v_res (demo_opts [1]) = Fin (1 / 4)"
    by (simp_all add: demo_opts_def)
  have g: "demo_grid ! 13 = Fin (5 / 4)" "demo_grid ! 0 = Fin (- 2)"
    by (simp_all add: demo_grid_def)
  from resample_outside_missing [OF demo_stack m f] obtain grid samp sim_samp where
    ar: "arange (fneg (o_vel_width (demo_opts [1]))) (o_vel_width (demo_opts [1]))
           (o_v_res (demo_opts [1])) = Inr grid" and
    s: "int_samp demo_final0 = Some samp" "int_sim_samp demo_final0 = Some sim_samp" and
    out1: "\<forall>i<length grid.
          ((\<forall>v\<in>set (velocity demo_final0). flt (grid ! i) v)
            \<or> (\<forall>v\<in>set (velocity demo_final0). fgt (grid ! i) v)) \<longrightarrow> samp ! i = NaN" and
    out2: "\<forall>i<length grid.
          ((\<forall>v\<in>set (sim_velocity demo_final0). flt (grid ! i) v)
            \<or> (\<forall>v\<in>set (sim_velocity demo_final0). fgt (grid ! i) v)) \<longrightarrow> sim_samp ! i = NaN"
    by blast
  from ar have grid: "grid = demo_grid" by (simp only: o demo_arange sum.inject)
  from s v have samp: "samp = demo_ints" "sim_samp = demo_sims" by simp_all
  have "(13::nat) < length demo_grid" "(0::nat) < length demo_grid"
    by (simp_all add: demo_grid_length)
  moreover have "\<forall>v\<in>set (velocity demo_final0). fgt (demo_grid ! 13) v"
    by (simp add: v g)
  moreover have "\<forall>v\<in>set (sim_velocity demo_final0). flt (demo_grid ! 0) v"
    by (simp add: v g flt_def)
  ultimately have "demo_ints ! 13 = NaN" "demo_sims ! 0 = NaN"
    using out1 out2 unfolding grid samp by blast+
  with demo_stack m f v g show ?thesis by simp
qed

section \<open>The drop pass and the empty window\<close>

lemma py_slice_empty: "py_slice x x xs = []"
  by (simp add: py_slice_def)

lemma set_cfreq_empty: "set_cfreq [] = Inl IndexError"
  by (simp add: set_cfreq_def getitem_def round_half_def)

lemma drop_pass_flags:
  assumes "\<not> flag c" and "freq_obs c = [] \<or> id_chunk c \<in> set (o_drops u)"
  shows "flag_step P u s c = Inr (s, c\<lparr>flag := True\<rparr>, [])"
  using assms by (auto simp: flag_step_def)

text \<open>
  C4.  The loop does flag a chunk whose observed window is empty or whose id is in
  \<open>drops\<close> (\<open>drop_pass_flags\<close>), but a chunk with an empty observed window is never
  built: \<open>set_cfreq\<close> reads \<open>freq_obs[0]\<close> of the empty array and the constructor
  raises IndexError (unless \<open>get_rms\<close> has raised before it on the empty intensity
  window).  On the five-channel example the call ends with that IndexError.
\<close>

theorem empty_window_raises:
  "mk_chunk P u s (x, x) ws pk c = ebind (get_rms P []) (\<lambda>r. Inl IndexError)
   \<and> velocity_stack demo_prims short_params = Inl IndexError"
proof -
  have "mk_chunk P u s (x, x) ws pk c = ebind (get_rms P []) (\<lambda>r. Inl IndexError)"
    by (simp add: mk_chunk_def py_slice_empty set_cfreq_empty ebind_Inl Let_def)
  moreover have "velocity_stack demo_prims short_params = Inl IndexError"
    by (simp add: velocity_stack_def unpack_def unpack_v_res_def lookup_def select_def
        select_peaks_def take_idx_def getitem_def extract_chunks_def mk_chunk_def set_cfreq_def
        round_half_def to_velocity_def py_slice_def nearest_def flt_def fsub_def
        short_params_def demo_params_def demo_prims_def ebind_def c0_def Let_def)
  ultimately show ?thesis by blast
qed

section \<open>When every chunk is flagged\<close>

lemma set_weight_flagged: "\<forall>c\<in>set cs. flag c \<Longrightarrow> map (set_weight s m) cs = cs"
  by (induction cs) (simp_all add: set_weight_def)

lemma resample_flagged: "\<forall>c\<in>set cs. flag c \<Longrightarrow> emap (resample g) cs = Inr cs"
  by (induction cs) (simp_all add: resample_def ebind_def)

lemma collect_flagged: "\<forall>c\<in>set cs. flag c \<Longrightarrow> collect cs = Inr ([], [], [])"
proof -
  assume "\<forall>c\<in>set cs. flag c"
  then have "survivors cs = []" by (simp add: survivors_def)
  then show ?thesis by (simp add: collect_def ebind_def)
qed

lemma rms_array_no_rows: "rms_array n [] [] = replicate n (Fin 0)"
  by (simp add: rms_array_def map_replicate_const)

lemma int_average_no_rows: "int_average n [] (replicate n (Fin 0)) = replicate n NaN"
proof -
  have "map (\<lambda>x. fdiv (nansum_axis0 n [] ! x) (replicate n (Fin 0) ! x)) [0..<n]
      = map (\<lambda>x. NaN) [0..<n]"
    by (rule map_cong) (simp_all add: nansum_axis0_def nansum_def)
  then show ?thesis by (simp add: int_average_def map_replicate_const)
qed

lemma compose_no_rows:
  "compose n [] [] [] =
     \<lparr> rms_arr = replicate n (Fin 0), int_avg = replicate n NaN, int_sim_avg = replicate n NaN \<rparr>"
  by (simp add: compose_def rms_array_no_rows int_average_no_rows)

lemma trim_replicate: "trim (replicate n x) = replicate (n - 10) x"
  by (simp add: trim_def min_def)

lemma fdiv_NaN: "fdiv NaN r = NaN"
  by simp

lemma stack_all_flagged:
  assumes "flagging P u s obs_chunks = Inr (s1, cs1, out)" and "\<forall>c\<in>set cs1. flag c"
    and "py_max peak_ints = Inr m"
    and "arange (fneg (o_vel_width u)) (o_vel_width u) (o_v_res u) = Inr grid"
  shows "stack_chunks P u s peak_ints obs_chunks =
     ebind (get_rms P (replicate (length grid - 10) NaN)) (\<lambda>r.
       Inr ((\<lparr> sp_velocity = trim grid,
                sp_snr = replicate (length grid - 10) NaN,
                sp_int_sim = replicate (length grid - 10) NaN \<rparr>, cs1),
            s1, [o_vlsr u] # out))"
proof -
  have fin: "finish P grid (compose (length grid) [] [] []) =
      ebind (get_rms P (replicate (length grid - 10) NaN)) (\<lambda>r.
        Inr \<lparr> sp_velocity = trim grid,
              sp_snr = replicate (length grid - 10) NaN,
              sp_int_sim = replicate (length grid - 10) NaN \<rparr>)"
    by (simp add: finish_def compose_no_rows trim_replicate map_replicate_const)
  have "stack_chunks P u s peak_ints obs_chunks =
      ebind (finish P grid (compose (length grid) [] [] [])) (\<lambda>sp.
        Inr ((sp, cs1), s1, [o_vlsr u] # out))"
    by (simp add: stack_chunks_def weighting_def assms(1,3,4) ebind_Inr
        set_weight_flagged [OF assms(2)] resample_flagged [OF assms(2)]
        collect_flagged [OF assms(2)])
  then show ?thesis
    by (cases "get_rms P (replicate (length grid - 10) NaN)") (simp_all add: fin ebind_def)
qed

text \<open>
  C5, as the code has it.  When the flagging loop leaves every chunk flagged, there is
  at least one candidate (\<open>max(peak_ints)\<close> returns) and the grid can be built, no
  exception is raised by the pipeline itself: the compositor runs on no rows, every
  entry of the composite is \<open>0/0\<close>, and the call returns the trimmed grid with NaN at
  every point of \<open>snr\<close> and \<open>int_sim\<close>, together with the chunk list.  The only
  exception possible at that point is one \<open>get_rms\<close> raises on the all-NaN composite.
\<close>

theorem all_flagged_returns:
  assumes "flagging P u s obs_chunks = Inr (s1, cs1, out)" and "\<forall>c\<in>set cs1. flag c"
    and "py_max peak_ints = Inr m"
    and "arange (fneg (o_vel_width u)) (o_vel_width u) (o_v_res u) = Inr grid"
  shows "stack_chunks P u s peak_ints obs_chunks =
     ebind (get_rms P (replicate (length grid - 10) NaN)) (\<lambda>r.
       Inr ((\<lparr> sp_velocity = trim grid,
                sp_snr = replicate (length grid - 10) NaN,
                sp_int_sim = replicate (length grid - 10) NaN \<rparr>, cs1),
            s1, [o_vlsr u] # out))"
  using assms by (rule stack_all_flagged)

lemma demo_flagging_all:
  "flagging demo_prims (demo_opts [0, 1]) demo_store [demo_chunk0, demo_chunk1]
     = Inr (demo_store, [demo_dropped0, demo_dropped1], [])"
  by (simp add: flag_step_def demo_opts_def demo_chunk0_def demo_chunk1_def demo_dropped0_def
      demo_dropped1_def ebind_def)

lemma demo_all_flagged: "\<forall>c\<in>set [demo_dropped0, demo_dropped1]. flag c"
  by (simp add: demo_dropped0_def demo_dropped1_def)

lemma demo_py_max: "py_max [Fin 1, Fin 4] = Inr (Fin 4)"
  by (simp add: py_max_def)

lemma demo_arange_opts:
  "arange (fneg (o_vel_width (demo_opts d))) (o_vel_width (demo_opts d)) (o_v_res (demo_opts d))
     = Inr demo_grid"
proof -
  have "o_vel_width (demo_opts d) = Fin 2" "o_v_res (demo_opts d) = Fin (1 / 4)"
    by (simp_all add: demo_opts_def)
  then show ?thesis by (simp only: demo_arange)
qed

lemma demo_get_rms: "get_rms demo_prims xs = Inr (Fin 2)"
  by (simp add: demo_prims_def)

lemma demo_vlsr: "o_vlsr (demo_opts d) = Fin 0"
  by (simp add: demo_opts_def)

lemma demo_nan_spectrum:
  "\<lparr> sp_velocity = trim demo_grid,
     sp_snr = replicate (length demo_grid - 10) NaN,
     sp_int_sim = replicate (length demo_grid - 10) NaN \<rparr> = nan_spectrum"
  by (simp add: nan_spectrum_def trim_def demo_grid_def numeral_eq_Suc)

theorem all_flagged_returns_witness:
  "flagging demo_prims (demo_opts [0, 1]) demo_store [demo_chunk0, demo_chunk1]
     = Inr (demo_store, [demo_dropped0, demo_dropped1], [])
   \<and> flag demo_dropped0 \<and> flag demo_dropped1
   \<and> py_max [Fin 1, Fin 4] = Inr (Fin 4)
   \<and> stack_chunks demo_prims (demo_opts [0, 1]) demo_store [Fin 1, Fin 4]
        [demo_chunk0, demo_chunk1]
      = Inr ((nan_spectrum, [demo_dropped0, demo_dropped1]), demo_store, [[Fin 0]])"
proof -
  have "stack_chunks demo_prims (demo_opts [0, 1]) demo_store [Fin 1, Fin 4]
        [demo_chunk0, demo_chunk1]
      = Inr ((nan_spectrum, [demo_dropped0, demo_dropped1]), demo_store, [[Fin 0]])"
    unfolding all_flagged_returns [OF demo_flagging_all demo_all_flagged demo_py_max
        demo_arange_opts]
    by (simp only: demo_get_rms ebind_Inr demo_nan_spectrum demo_vlsr)
  with demo_flagging_all demo_all_flagged demo_py_max show ?thesis by simp
qed

text \<open>
  With both candidates of the worked example in \<open>drops\<close> every chunk is flagged, and
  \<open>velocity_stack\<close> returns a spectrum of NaN.
\<close>

theorem all_flagged_counterexample:
  "velocity_stack demo_prims (demo_params [0, 1])
     = Inr ((nan_spectrum, [demo_dropped0, demo_dropped1]), demo_store, [[Fin 0]])
   \<and> flag demo_dropped0 \<and> flag demo_dropped1
   \<and> sp_snr nan_spectrum = [NaN, NaN, NaN, NaN, NaN, NaN]
   \<and> sp_int_sim nan_spectrum = [NaN, NaN, NaN, NaN, NaN, NaN]"
proof -
  have st: "stack_chunks demo_prims (demo_opts [0, 1]) demo_store [Fin 1, Fin 4]
        [demo_chunk0, demo_chunk1]
      = Inr ((nan_spectrum, [demo_dropped0, demo_dropped1]), demo_store, [[Fin 0]])"
    unfolding stack_all_flagged [OF demo_flagging_all demo_all_flagged demo_py_max
        demo_arange_opts]
    by (simp only: demo_get_rms ebind_Inr demo_nan_spectrum demo_vlsr)
  have "velocity_stack demo_prims (demo_params [0, 1])
     = Inr ((nan_spectrum, [demo_dropped0, demo_dropped1]), demo_store, [[Fin 0]])"
    by (simp only: velocity_stack_def demo_unpack demo_selection demo_select demo_opts_store
        demo_extract st ebind_Inr prod.case)
  with demo_all_flagged show ?thesis by (simp add: nan_spectrum_def)
qed

section \<open>The default of the grid step\<close>

text \<open>
  C6.  The default \<open>0.1 * dV\<close> is taken when the key \<open>drops\<close> is absent, not when the key
  \<open>v_res\<close> is: with \<open>drops\<close> present and \<open>v_res\<close> absent reading the step raises
  KeyError, and with \<open>drops\<close> absent a supplied \<open>v_res\<close> is not used.  The worked
  example without its \<open>v_res\<close> ends with the KeyError.
\<close>

theorem v_res_default_tests_drops:
  "unpack_v_res (p\<lparr>p_drops := Some d, p_v_res := None\<rparr>) dV = Inl (KeyError ''v_res'')
   \<and> unpack_v_res (p\<lparr>p_drops := None, p_v_res := Some v\<rparr>) dV = Inr (fmul (Fin (1 / 10)) dV)
   \<and> velocity_stack demo_prims ((demo_params [1])\<lparr>p_v_res := None\<rparr>)
       = Inl (KeyError ''v_res'')"
proof -
  have "unpack_v_res (p\<lparr>p_drops := Some d, p_v_res := None\<rparr>) dV = Inl (KeyError ''v_res'')"
    by (simp add: unpack_v_res_def lookup_def)
  moreover have "unpack_v_res (p\<lparr>p_drops := None, p_v_res := Some v\<rparr>) dV
      = Inr (fmul (Fin (1 / 10)) dV)"
    by (simp add: unpack_v_res_def)
  moreover have "velocity_stack demo_prims ((demo_params [1])\<lparr>p_v_res := None\<rparr>)
      = Inl (KeyError ''v_res'')"
    by (simp add: velocity_stack_def unpack_def unpack_v_res_def lookup_def
        demo_params_def demo_prims_def ebind_def)
  ultimately show ?thesis by blast
qed

section \<open>The blanking pass and the protected band\<close>

lemma length_py_slice: "length (py_slice a b xs) = min (b - a) (length xs - a)"
  by (simp add: py_slice_def)

lemma length_slice_set: "length (slice_set a b ys xs) = length xs"
  by (simp add: slice_set_def)

lemma length_slice_fill: "length (slice_fill a b v xs) = length xs"
  by (simp add: slice_fill_def)

lemma length_blank_mask: "length (blank_mask thr xs) = length xs"
  by (simp add: blank_mask_def)

lemma length_blank_runs: "length (blank_runs runs xs) = length xs"
  unfolding blank_runs_def
  by (induction runs arbitrary: xs) (simp_all add: length_slice_fill case_prod_beta)

lemma py_slice_slice_set:
  assumes "length ys = length (py_slice a b xs)"
  shows "py_slice a b (slice_set a b ys xs) = ys"
proof (rule nth_equalityI)
  show "length (py_slice a b (slice_set a b ys xs)) = length ys"
    using assms by (simp add: length_py_slice length_slice_set)
next
  fix i
  assume "i < length (py_slice a b (slice_set a b ys xs))"
  then have i: "i < b - a" "i < length xs - a"
    by (simp_all add: length_py_slice length_slice_set)
  then have "py_slice a b (slice_set a b ys xs) ! i = slice_set a b ys xs ! (a + i)"
    by (simp add: py_slice_def length_slice_set)
  also have "\<dots> = ys ! i"
  proof -
    have "a + i < length xs" "a + i < b" using i by linarith+
    then show ?thesis by (simp add: slice_set_def)
  qed
  finally show "py_slice a b (slice_set a b ys xs) ! i = ys ! i" .
qed

lemma int_obs_set_int_obs:
  "length v = length (int_obs s c) \<Longrightarrow> int_obs (set_int_obs c v s) c = v"
  by (simp add: int_obs_def set_int_obs_def py_slice_slice_set)

lemma int_sim_set_int_sim:
  "length v = length (int_sim s c) \<Longrightarrow> int_sim (set_int_sim c v s) c = v"
  by (simp add: int_sim_def set_int_sim_def py_slice_slice_set)

lemma int_obs_set_int_sim: "int_obs (set_int_sim c v s) d = int_obs s d"
  by (simp add: int_obs_def set_int_sim_def)

lemma int_sim_set_int_obs: "int_sim (set_int_obs c v s) d = int_sim s d"
  by (simp add: int_sim_def set_int_obs_def)

lemma int_obs_rms_update: "int_obs s (c\<lparr>rms := r\<rparr>) = int_obs s c"
  by (simp add: int_obs_def)

lemma int_sim_rms_update: "int_sim s (c\<lparr>rms := r\<rparr>) = int_sim s c"
  by (simp add: int_sim_def)

lemma blank_pass_Inr:
  assumes "blank_pass P u s c = Inr (s', c', out)"
  obtains wo ws runs r where
    "safe_range P u c = Inr (wo, ws)"
    "s' = set_int_sim c
            (slice_set (fst ws) (snd ws) (py_slice (fst ws) (snd ws) (int_sim s c))
               (blank_runs runs (int_sim s c)))
            (set_int_obs c
               (slice_set (fst wo) (snd wo) (py_slice (fst wo) (snd wo) (int_obs s c))
                  (blank_mask (fmul (o_flag_sigma u) (rms c)) (int_obs s c))) s)"
    "get_rms P (int_obs s' c) = Inr r"
    "c' = c\<lparr>rms := r\<rparr>"
  using assms
  by (auto simp: blank_pass_def ebind_Inr_iff Let_def)

lemma blank_pass_views:
  assumes "blank_pass P u s c = Inr (s', c', out)"
  shows "\<exists>ll_obs ul_obs ll_sim ul_sim.
       safe_range P u c = Inr ((ll_obs, ul_obs), (ll_sim, ul_sim))
     \<and> int_obs s' c' =
         slice_set ll_obs ul_obs (py_slice ll_obs ul_obs (int_obs s c))
           (blank_mask (fmul (o_flag_sigma u) (rms c)) (int_obs s c))
     \<and> py_slice ll_obs ul_obs (int_obs s' c') = py_slice ll_obs ul_obs (int_obs s c)
     \<and> py_slice ll_sim ul_sim (int_sim s' c') = py_slice ll_sim ul_sim (int_sim s c)
     \<and> get_rms P (int_obs s' c') = Inr (rms c')"
proof -
  from assms obtain wo ws runs r where
    sr: "safe_range P u c = Inr (wo, ws)" and
    s': "s' = set_int_sim c
            (slice_set (fst ws) (snd ws) (py_slice (fst ws) (snd ws) (int_sim s c))
               (blank_runs runs (int_sim s c)))
            (set_int_obs c
               (slice_set (fst wo) (snd wo) (py_slice (fst wo) (snd wo) (int_obs s c))
                  (blank_mask (fmul (o_flag_sigma u) (rms c)) (int_obs s c))) s)" and
    r: "get_rms P (int_obs s' c) = Inr r" and
    c': "c' = c\<lparr>rms := r\<rparr>"
    by (rule blank_pass_Inr)
  let ?bl = "blank_mask (fmul (o_flag_sigma u) (rms c)) (int_obs s c)"
  let ?io = "slice_set (fst wo) (snd wo) (py_slice (fst wo) (snd wo) (int_obs s c)) ?bl"
  let ?is = "slice_set (fst ws) (snd ws) (py_slice (fst ws) (snd ws) (int_sim s c))
               (blank_runs runs (int_sim s c))"
  have io: "int_obs s' c = ?io"
    by (simp add: s' int_obs_set_int_sim int_obs_set_int_obs length_slice_set length_blank_mask)
  have "int_sim s' c = ?is"
    by (simp add: s' int_sim_set_int_sim int_sim_set_int_obs length_slice_set length_blank_runs)
  then have ps: "py_slice (fst ws) (snd ws) (int_sim s' c)
      = py_slice (fst ws) (snd ws) (int_sim s c)"
    by (simp add: py_slice_slice_set length_py_slice length_blank_runs)
  have po: "py_slice (fst wo) (snd wo) (int_obs s' c)
      = py_slice (fst wo) (snd wo) (int_obs s c)"
    by (simp add: io py_slice_slice_set length_py_slice length_blank_mask)
  have "safe_range P u c = Inr ((fst wo, snd wo), (fst ws, snd ws))" using sr by simp
  moreover have "int_obs s' c' = ?io" "get_rms P (int_obs s' c') = Inr (rms c')"
    "py_slice (fst wo) (snd wo) (int_obs s' c') = py_slice (fst wo) (snd wo) (int_obs s c)"
    "py_slice (fst ws) (snd ws) (int_sim s' c') = py_slice (fst ws) (snd ws) (int_sim s c)"
    using io po ps r by (simp_all add: c' int_obs_rms_update int_sim_rms_update)
  ultimately show ?thesis by blast
qed

lemma flag_step_blank:
  assumes "flag_step P u s c = Inr (s', c', out)" and "o_blank_lines u" and "\<not> flag c"
    and "freq_obs c \<noteq> []" and "id_chunk c \<notin> set (o_drops u)"
  shows "\<exists>c1. blank_pass P u s c = Inr (s', c1, out) \<and> (c' = c1 \<or> c' = c1\<lparr>flag := True\<rparr>)"
  using assms
  by (auto simp: flag_step_def flag_pass_def ebind_Inr_iff split: if_splits)

text \<open>
  What one turn of the loop does to \<open>int_obs\<close> when it takes a chunk through the blanking
  pass, whatever \<open>find_nearest\<close> is: with \<open>ll_obs\<close> and \<open>ul_obs\<close> the positions it gives
  for the two edges, the slice \<open>[ll_obs:ul_obs]\<close> is what it was before, and every
  position outside that slice, the position \<open>ul_obs\<close> found for the upper edge among
  them, is blanked when its magnitude exceeds the threshold.
\<close>

lemma flag_step_slices:
  assumes "flag_step P u s c = Inr (s', c', out)" and "o_blank_lines u" and "\<not> flag c"
    and "freq_obs c \<noteq> []" and "id_chunk c \<notin> set (o_drops u)"
  shows "\<exists>ll_obs ul_obs ll_sim ul_sim.
       safe_range P u c = Inr ((ll_obs, ul_obs), (ll_sim, ul_sim))
     \<and> py_slice ll_obs ul_obs (int_obs s' c') = py_slice ll_obs ul_obs (int_obs s c)
     \<and> py_slice ll_sim ul_sim (int_sim s' c') = py_slice ll_sim ul_sim (int_sim s c)
     \<and> (\<forall>i<length (int_obs s c). \<not> (ll_obs \<le> i \<and> i < ul_obs) \<longrightarrow>
           int_obs s' c' ! i =
             (if fgt (fabs (int_obs s c ! i)) (fmul (o_flag_sigma u) (rms c)) then NaN
              else int_obs s c ! i))
     \<and> get_rms P (int_obs s' c') = Inr (rms c')"
proof -
  from flag_step_blank [OF assms] obtain c1 where
    bp: "blank_pass P u s c = Inr (s', c1, out)" and c': "c' = c1 \<or> c' = c1\<lparr>flag := True\<rparr>"
    by blast
  from c' have same: "int_obs s' c' = int_obs s' c1" "int_sim s' c' = int_sim s' c1"
    "rms c' = rms c1"
    by (auto simp: int_obs_def int_sim_def)
  from blank_pass_views [OF bp] obtain ll_obs ul_obs ll_sim ul_sim where
    sr: "safe_range P u c = Inr ((ll_obs, ul_obs), (ll_sim, ul_sim))" and
    io: "int_obs s' c1 =
         slice_set ll_obs ul_obs (py_slice ll_obs ul_obs (int_obs s c))
           (blank_mask (fmul (o_flag_sigma u) (rms c)) (int_obs s c))" and
    rest: "py_slice ll_obs ul_obs (int_obs s' c1) = py_slice ll_obs ul_obs (int_obs s c)"
      "py_slice ll_sim ul_sim (int_sim s' c1) = py_slice ll_sim ul_sim (int_sim s c)"
      "get_rms P (int_obs s' c1) = Inr (rms c1)"
    by blast
  have "\<forall>i<length (int_obs s c). \<not> (ll_obs \<le> i \<and> i < ul_obs) \<longrightarrow>
           int_obs s' c1 ! i =
             (if fgt (fabs (int_obs s c ! i)) (fmul (o_flag_sigma u) (rms c)) then NaN
              else int_obs s c ! i)"
    by (simp add: io slice_set_def blank_mask_def)
  with sr rest show ?thesis unfolding same by blast
qed

subsection \<open>Two runs with the blanking pass enabled\<close>

lemma blank_unpack: "unpack demo_prims (demo_blank_params r) = Inr (demo_blank_opts r)"
  by (simp add: unpack_def unpack_v_res_def lookup_def demo_prims_def demo_params_def
      demo_blank_params_def demo_blank_opts_def demo_opts_def ebind_def)

lemma blank_selection:
  "lookup ''selection'' (p_selection (demo_blank_params r)) = Inr ''peaks''"
  by (simp add: lookup_def demo_params_def demo_blank_params_def)

lemma blank_select:
  "select demo_prims (demo_blank_opts r) ''peaks''
     = Inr ([Fin c0, Fin (c0 + 4)], [Fin 1, Fin 4])"
  by (simp add: select_def select_peaks_def demo_prims_def demo_blank_opts_def demo_opts_def
      ebind_def take_idx_def getitem_def)

lemma blank_opts_store:
  "\<lparr>obs_buf = o_int_arr (demo_blank_opts r), sim_buf = o_int_sim (demo_blank_opts r)\<rparr>
     = demo_store"
  by (simp add: demo_blank_opts_def demo_opts_def demo_store_def)

lemma blank_extract:
  "extract_chunks demo_prims (demo_blank_opts r) demo_store [Fin c0, Fin (c0 + 4)]
      [Fin 1, Fin 4]
     = Inr [demo_chunk0, demo_chunk1]"
  by (simp add: extract_chunks_def mk_chunk_def set_cfreq_def round_half_def getitem_def
      to_velocity_def py_slice_def nearest_def flt_def fsub_def
      demo_prims_def demo_blank_opts_def demo_opts_def demo_store_def demo_chunk0_def
      demo_chunk1_def ebind_def c0_def)

lemma blank_flag_step0:
  "flag_step demo_prims (demo_blank_opts r) demo_store demo_chunk0
     = blank_pass demo_prims (demo_blank_opts r) demo_store demo_chunk0"
proof -
  have "\<not> flag demo_chunk0" "freq_obs demo_chunk0 \<noteq> []"
    "id_chunk demo_chunk0 \<notin> set (o_drops (demo_blank_opts r))"
    "o_blank_lines (demo_blank_opts r)" "\<not> o_flag_lines (demo_blank_opts r)"
    by (simp_all add: demo_chunk0_def demo_blank_opts_def demo_opts_def)
  then show ?thesis
    by (simp add: flag_step_def ebind_def split: sum.splits)
qed

lemma blank_flag_step1:
  "flag_step demo_prims (demo_blank_opts r) s demo_chunk1 = Inr (s, demo_dropped1, [])"
  by (simp add: flag_step_def demo_blank_opts_def demo_opts_def demo_chunk1_def
      demo_dropped1_def)

lemma blank_flagging:
  assumes "blank_pass demo_prims (demo_blank_opts r) demo_store demo_chunk0
             = Inr (s, demo_chunk0, out)"
  shows "flagging demo_prims (demo_blank_opts r) demo_store [demo_chunk0, demo_chunk1]
           = Inr (s, [demo_chunk0, demo_dropped1], out)"
  by (simp add: blank_flag_step0 blank_flag_step1 assms ebind_def)

lemma blank_settings:
  "o_vel_width (demo_blank_opts r) = Fin 2" "o_v_res (demo_blank_opts r) = Fin (1 / 4)"
  "o_vlsr (demo_blank_opts r) = Fin 0"
  by (simp_all add: demo_blank_opts_def demo_opts_def)

lemma blank_stack:
  assumes "blank_pass demo_prims (demo_blank_opts r) demo_store demo_chunk0
             = Inr (s, demo_chunk0, out)"
    and "weighting s [Fin 1, Fin 4] [demo_chunk0, demo_dropped1] = Inr [w0, demo_dropped1]"
    and "resample demo_grid w0 = Inr f0"
    and "collect [f0, demo_dropped1] = Inr ([ints], [Fin 2], [sims])"
    and "finish demo_prims demo_grid (compose 16 [ints] [Fin 2] [sims]) = Inr sp"
  shows "velocity_stack demo_prims (demo_blank_params r)
           = Inr ((sp, [f0, demo_dropped1]), s, [Fin 0] # out)"
proof -
  have "stack_chunks demo_prims (demo_blank_opts r) demo_store [Fin 1, Fin 4]
          [demo_chunk0, demo_chunk1]
        = Inr ((sp, [f0, demo_dropped1]), s, [Fin 0] # out)"
    unfolding stack_chunks_def blank_flagging [OF assms(1)] blank_settings demo_arange
    by (simp add: ebind_def assms(2-5) demo_resample1 demo_grid_length)
  then show ?thesis
    by (simp only: velocity_stack_def blank_unpack blank_selection blank_select
        blank_opts_store blank_extract ebind_Inr prod.case)
qed

lemma inner_blank_pass:
  "blank_pass demo_prims (demo_blank_opts (Fin (- 7 / 5), Fin (7 / 5))) demo_store demo_chunk0
     = Inr (inner_store, demo_chunk0, [[Fin (c0 - 7 / 5), Fin c0, Fin (c0 + 7 / 5)]])"
  by (simp add: blank_pass_def safe_range_def keep_bounds_def blank_mask_def blank_runs_def
      take_idx_def set_int_obs_def set_int_sim_def slice_set_def int_obs_def int_sim_def
      py_slice_def nearest_def flt_def fsub_def upt_rec
      demo_prims_def demo_blank_opts_def demo_opts_def demo_store_def inner_store_def
      demo_chunk0_def ebind_def c0_def Let_def)

lemma inner_weighting:
  "weighting inner_store [Fin 1, Fin 4] [demo_chunk0, demo_dropped1]
     = Inr [inner_weighted0, demo_dropped1]"
  by (simp add: weighting_def py_max_def set_weight_def chunk_weight_def int_obs_def int_sim_def
      py_slice_def inner_store_def demo_chunk0_def demo_chunk1_def demo_dropped1_def
      inner_weighted0_def ebind_def)

lemma inner_resample: "resample demo_grid inner_weighted0 = Inr inner_final0"
  by (simp add: resample_def attr_def interp_def interp_at_def search_def fge_def flt_def
      fsub_def demo_grid_def demo_chunk0_def inner_weighted0_def inner_final0_def
      inner_ints_def demo_sims_def ebind_def Let_def)

lemma inner_collect:
  "collect [inner_final0, demo_dropped1] = Inr ([inner_ints], [Fin 2], [demo_sims])"
  by (simp add: collect_def survivors_def attr_def ebind_def inner_final0_def
      inner_weighted0_def demo_chunk0_def demo_dropped1_def)

lemma inner_compose: "compose 16 [inner_ints] [Fin 2] [demo_sims] = inner_composite"
  by (simp add: compose_def rms_array_def int_average_def nansum_axis0_def nansum_def
      inner_ints_def demo_sims_def inner_composite_def upt_rec)

lemma inner_finish: "finish demo_prims demo_grid inner_composite = Inr inner_spectrum"
  by (simp add: finish_def trim_def inner_composite_def demo_grid_def demo_prims_def
      inner_spectrum_def ebind_def)

lemma upper_blank_pass:
  "blank_pass demo_prims (demo_blank_opts (Fin 0, Fin 2)) demo_store demo_chunk0
     = Inr (upper_store, demo_chunk0, [[Fin (c0 - 2), Fin c0, Fin c0]])"
  by (simp add: blank_pass_def safe_range_def keep_bounds_def blank_mask_def blank_runs_def
      take_idx_def set_int_obs_def set_int_sim_def slice_set_def int_obs_def int_sim_def
      py_slice_def nearest_def flt_def fsub_def upt_rec
      demo_prims_def demo_blank_opts_def demo_opts_def demo_store_def upper_store_def
      demo_chunk0_def ebind_def c0_def Let_def)

lemma upper_weighting:
  "weighting upper_store [Fin 1, Fin 4] [demo_chunk0, demo_dropped1]
     = Inr [upper_weighted0, demo_dropped1]"
  by (simp add: weighting_def py_max_def set_weight_def chunk_weight_def int_obs_def int_sim_def
      py_slice_def upper_store_def demo_chunk0_def demo_chunk1_def demo_dropped1_def
      upper_weighted0_def ebind_def)

lemma upper_resample: "resample demo_grid upper_weighted0 = Inr upper_final0"
  by (simp add: resample_def attr_def interp_def interp_at_def search_def fge_def flt_def
      fsub_def demo_grid_def demo_chunk0_def upper_weighted0_def upper_final0_def
      upper_ints_def demo_sims_def ebind_def Let_def)

lemma upper_collect:
  "collect [upper_final0, demo_dropped1] = Inr ([upper_ints], [Fin 2], [demo_sims])"
  by (simp add: collect_def survivors_def attr_def ebind_def upper_final0_def
      upper_weighted0_def demo_chunk0_def demo_dropped1_def)

lemma upper_compose: "compose 16 [upper_ints] [Fin 2] [demo_sims] = upper_composite"
  by (simp add: compose_def rms_array_def int_average_def nansum_axis0_def nansum_def
      upper_ints_def demo_sims_def upper_composite_def upt_rec)

lemma upper_finish: "finish demo_prims demo_grid upper_composite = Inr upper_spectrum"
  by (simp add: finish_def trim_def upper_composite_def demo_grid_def demo_prims_def
      upper_spectrum_def ebind_def)

lemma inner_run:
  "velocity_stack demo_prims (demo_blank_params (Fin (- 7 / 5), Fin (7 / 5)))
     = Inr ((inner_spectrum, [inner_final0, demo_dropped1]), inner_store,
            [[Fin 0], [Fin (c0 - 7 / 5), Fin c0, Fin (c0 + 7 / 5)]])"
  by (rule blank_stack [OF inner_blank_pass inner_weighting inner_resample inner_collect])
    (simp only: inner_compose inner_finish)

lemma upper_run:
  "velocity_stack demo_prims (demo_blank_params (Fin 0, Fin 2))
     = Inr ((upper_spectrum, [upper_final0, demo_dropped1]), upper_store,
            [[Fin 0], [Fin (c0 - 2), Fin c0, Fin c0]])"
  by (rule blank_stack [OF upper_blank_pass upper_weighting upper_resample upper_collect])
    (simp only: upper_compose upper_finish)

lemma chunk0_views:
  "velocity demo_chunk0 = map Fin [- 2, - 1, 0, 1]"
  "velocity inner_final0 = map Fin [- 2, - 1, 0, 1]"
  "velocity upper_final0 = map Fin [- 2, - 1, 0, 1]"
  "int_obs demo_store demo_chunk0 = map Fin [1, 2, 4, 2]"
  "int_obs inner_store inner_final0 = map Fin [1, 2, 4] @ [NaN]"
  "int_obs upper_store upper_final0 = map Fin [1, 2] @ [NaN, NaN]"
  by (simp_all add: int_obs_def py_slice_def demo_store_def inner_store_def upper_store_def
      inner_final0_def inner_weighted0_def upper_final0_def upper_weighted0_def demo_chunk0_def)

text \<open>
  C7.  The protected band is not what the blanking pass protects.  The pass looks up the
  frequencies \<open>cfreq - hi * cfreq / ckm\<close> and \<open>cfreq - lo * cfreq / ckm\<close> for a band
  \<open>[lo, hi]\<close> and restores the half-open slice between the two positions found, while the
  chunk's velocity axis is \<open>(freq - cfreq) * ckm / cfreq\<close>.  In the worked example, with
  the blanking pass enabled and a threshold of 1, the first chunk has the velocities
  \<open>[-2, -1, 0, 1]\<close> and \<open>int_obs = [1, 2, 4, 2]\<close>.  With the band \<open>[-7/5, 7/5]\<close> the call
  returns, the samples of the band are \<open>[2, 4, 2]\<close> before and \<open>[2, 4, NaN]\<close> after: the
  sample at velocity 1 is blanked, and the returned \<open>snr\<close> is missing at the velocities
  1/4 and 1/2.  With the band \<open>[0, 2]\<close> the call returns, the samples of the band are
  \<open>[4, 2]\<close> before and both are missing after, while the samples at the velocities -2
  and -1, outside the band, are the ones restored.  (The stand-in for \<open>_find_nans\<close>
  reports no runs, so \<open>int_sim\<close> is left as it is; what happens to \<open>int_obs\<close> does not
  depend on it.)
\<close>

theorem protected_band_is_blanked:
  "velocity_stack demo_prims (demo_blank_params (Fin (- 7 / 5), Fin (7 / 5)))
     = Inr ((inner_spectrum, [inner_final0, demo_dropped1]), inner_store,
            [[Fin 0], [Fin (c0 - 7 / 5), Fin c0, Fin (c0 + 7 / 5)]])
   \<and> velocity inner_final0 = velocity demo_chunk0
   \<and> velocity demo_chunk0 = map Fin [- 2, - 1, 0, 1]
   \<and> int_obs demo_store demo_chunk0 = map Fin [1, 2, 4, 2]
   \<and> int_obs inner_store inner_final0 = map Fin [1, 2, 4] @ [NaN]
   \<and> band_samples (Fin (- 7 / 5), Fin (7 / 5)) (velocity demo_chunk0)
        (int_obs demo_store demo_chunk0) = map Fin [2, 4, 2]
   \<and> band_samples (Fin (- 7 / 5), Fin (7 / 5)) (velocity inner_final0)
        (int_obs inner_store inner_final0) = map Fin [2, 4] @ [NaN]
   \<and> sp_velocity inner_spectrum = map Fin [- 3 / 4, - 1 / 2, - 1 / 4, 0, 1 / 4, 1 / 2]
   \<and> sp_snr inner_spectrum = map Fin [5 / 256, 3 / 128, 7 / 256, 1 / 32] @ [NaN, NaN]
   \<and> sp_snr demo_spectrum = map Fin [5 / 256, 3 / 128, 7 / 256, 1 / 32, 7 / 256, 3 / 128]
   \<and> velocity_stack demo_prims (demo_blank_params (Fin 0, Fin 2))
     = Inr ((upper_spectrum, [upper_final0, demo_dropped1]), upper_store,
            [[Fin 0], [Fin (c0 - 2), Fin c0, Fin c0]])
   \<and> velocity upper_final0 = velocity demo_chunk0
   \<and> int_obs upper_store upper_final0 = map Fin [1, 2] @ [NaN, NaN]
   \<and> band_samples (Fin 0, Fin 2) (velocity demo_chunk0)
        (int_obs demo_store demo_chunk0) = map Fin [4, 2]
   \<and> band_samples (Fin 0, Fin 2) (velocity upper_final0)
        (int_obs upper_store upper_final0) = [NaN, NaN]"
proof -
  have b: "band_samples (Fin (- 7 / 5), Fin (7 / 5)) (map Fin [- 2, - 1, 0, 1])
             (map Fin [1, 2, 4, 2]) = map Fin [2, 4, 2]"
    "band_samples (Fin (- 7 / 5), Fin (7 / 5)) (map Fin [- 2, - 1, 0, 1])
             (map Fin [1, 2, 4] @ [NaN]) = map Fin [2, 4] @ [NaN]"
    "band_samples (Fin 0, Fin 2) (map Fin [- 2, - 1, 0, 1]) (map Fin [1, 2, 4, 2])
       = map Fin [4, 2]"
    "band_samples (Fin 0, Fin 2) (map Fin [- 2, - 1, 0, 1]) (map Fin [1, 2] @ [NaN, NaN])
       = [NaN, NaN]"
    by (simp_all add: band_samples_def fge_def)
  have s: "sp_velocity inner_spectrum = map Fin [- 3 / 4, - 1 / 2, - 1 / 4, 0, 1 / 4, 1 / 2]"
    "sp_snr inner_spectrum = map Fin [5 / 256, 3 / 128, 7 / 256, 1 / 32] @ [NaN, NaN]"
    "sp_snr demo_spectrum = map Fin [5 / 256, 3 / 128, 7 / 256, 1 / 32, 7 / 256, 3 / 128]"
    by (simp_all add: inner_spectrum_def demo_spectrum_def)
  show ?thesis
    unfolding chunk0_views b
    using inner_run upper_run s by simp
qed

section \<open>How the weight varies with peak intensity and noise\<close>






section \<open>The system velocity\<close>

lemma map_sum_ebind: "map_sum id g (ebind m f) = ebind m (\<lambda>x. map_sum id g (f x))"
  by (cases m) (simp_all add: ebind_def)

lemma unpack_vlsr:
  "unpack P (p\<lparr>p_vlsr := Some v\<rparr>) =
     map_sum id (\<lambda>u. u\<lparr>o_vlsr := v\<rparr>) (unpack P (p\<lparr>p_vlsr := Some w\<rparr>))"
  by (simp add: unpack_def unpack_v_res_def map_sum_ebind lookup_def ebind_Inr cong: if_cong)

lemma select_vlsr: "select P (u\<lparr>o_vlsr := v\<rparr>) sel = select P u sel"
  by (simp add: select_def select_peaks_def select_lines_def)

lemma mk_chunk_vlsr: "mk_chunk P (u\<lparr>o_vlsr := v\<rparr>) = mk_chunk P u"
  by (intro ext) (simp add: mk_chunk_def)

lemma extract_vlsr: "extract_chunks P (u\<lparr>o_vlsr := v\<rparr>) s pf pk = extract_chunks P u s pf pk"
  by (simp add: extract_chunks_def mk_chunk_vlsr)

lemma keep_bounds_vlsr: "keep_bounds P (u\<lparr>o_vlsr := v\<rparr>) c = keep_bounds P u c"
  by (simp add: keep_bounds_def)

lemma safe_range_vlsr: "safe_range P (u\<lparr>o_vlsr := v\<rparr>) c = safe_range P u c"
  by (simp add: safe_range_def keep_bounds_vlsr)

lemma blank_pass_vlsr: "blank_pass P (u\<lparr>o_vlsr := v\<rparr>) s c = blank_pass P u s c"
  by (simp add: blank_pass_def safe_range_vlsr keep_bounds_vlsr)

lemma flag_pass_vlsr: "flag_pass (u\<lparr>o_vlsr := v\<rparr>) s c = flag_pass u s c"
  by (simp add: flag_pass_def)

lemma flag_step_vlsr: "flag_step P (u\<lparr>o_vlsr := v\<rparr>) s c = flag_step P u s c"
  by (simp add: flag_step_def blank_pass_vlsr flag_pass_vlsr cong: if_cong)

lemma flagging_vlsr: "flagging P (u\<lparr>o_vlsr := v\<rparr>) s cs = flagging P u s cs"
  by (induction cs arbitrary: s) (simp_all add: flag_step_vlsr)

lemma stack_chunks_vlsr:
  "returned (stack_chunks P (u\<lparr>o_vlsr := v\<rparr>) s pk cs) = returned (stack_chunks P u s pk cs)"
  by (simp add: stack_chunks_def flagging_vlsr returned_def ebind_def
      split: sum.splits prod.splits)


lemma returned_ebind: "returned (ebind m f) = ebind m (\<lambda>x. returned (f x))"
  by (cases m) (simp_all add: ebind_def returned_def)

lemma returned_velocity_stack:
  assumes "unpack P p = Inr u"
  shows "returned (velocity_stack P p) =
      ebind (lookup ''selection'' (p_selection p)) (\<lambda>sel.
        ebind (select P u sel) (\<lambda>pp.
        ebind (extract_chunks P u \<lparr>obs_buf = o_int_arr u, sim_buf = o_int_sim u\<rparr>
                 (fst pp) (snd pp)) (\<lambda>obs_chunks.
        returned (stack_chunks P u \<lparr>obs_buf = o_int_arr u, sim_buf = o_int_sim u\<rparr>
          (snd pp) obs_chunks))))"
  by (simp add: velocity_stack_def assms ebind_Inr returned_ebind case_prod_beta)

text \<open>
  C9.  Two calls whose options differ only in the value stored under \<open>vlsr\<close> hand back
  the same thing: the same exception, or the same spectrum, the same chunk list and the
  same contents of the two buffers.  (The value is printed at line 178, so the printed
  lines do differ.)
\<close>

theorem vlsr_independent:
  "returned (velocity_stack P (p\<lparr>p_vlsr := Some v\<rparr>))
     = returned (velocity_stack P (p\<lparr>p_vlsr := Some w\<rparr>))"
proof (cases "unpack P (p\<lparr>p_vlsr := Some w\<rparr>)")
  case (Inl e)
  then have "unpack P (p\<lparr>p_vlsr := Some v\<rparr>) = Inl e"
    by (simp add: unpack_vlsr [where v = v and w = w])
  with Inl show ?thesis by (simp add: velocity_stack_def ebind_Inl)
next
  case (Inr u)
  then have uv: "unpack P (p\<lparr>p_vlsr := Some v\<rparr>) = Inr (u\<lparr>o_vlsr := v\<rparr>)"
    by (simp add: unpack_vlsr [where v = v and w = w])
  show ?thesis
    unfolding returned_velocity_stack [OF uv] returned_velocity_stack [OF Inr]
    by (simp add: select_vlsr extract_vlsr stack_chunks_vlsr)
qed

theorem vlsr_independent_witness:
  "returned (velocity_stack demo_prims ((demo_params [1])\<lparr>p_vlsr := Some (Fin 7)\<rparr>))
     = Inr ((demo_spectrum, [demo_final0, demo_dropped1]), demo_store)"
proof -
  have e: "(demo_params [1])\<lparr>p_vlsr := Some (Fin 0)\<rparr> = demo_params [1]"
    by (simp add: demo_params_def)
  have r: "returned (velocity_stack demo_prims (demo_params [1]))
     = Inr ((demo_spectrum, [demo_final0, demo_dropped1]), demo_store)"
    unfolding demo_run by (simp add: returned_def)
  from vlsr_independent [where P = demo_prims and p = "demo_params [1]" and v = "Fin 7"
      and w = "Fin 0"]
  show ?thesis unfolding e r .
qed

section \<open>The maximum is taken over all candidates\<close>

lemma emap_length: "emap f xs = Inr ys \<Longrightarrow> length ys = length xs"
  by (simp add: emap_Inr_all2 list_all2_lengthD)

lemma take_idx_length: "take_idx xs js = Inr ys \<Longrightarrow> length ys = length js"
  by (simp add: take_idx_def emap_length)

lemma select_lengths:
  assumes "select P u sel = Inr (pf, pk)"
  shows "length pk = length pf"
proof -
  consider (peaks) "select_peaks P u = Inr (pf, pk)" | (lines) "select_lines P u = Inr (pf, pk)"
    using assms by (auto simp: select_def split: if_splits)
  then show ?thesis
  proof cases
    case peaks
    then show ?thesis
      by (auto simp: select_peaks_def ebind_Inr_iff dest!: take_idx_length)
  next
    case lines
    then show ?thesis
      by (auto simp: select_lines_def ebind_Inr_iff Let_def dest!: emap_length)
  qed
qed

lemma mk_chunk_peak_int: "mk_chunk P u s wo ws pk c = Inr ch \<Longrightarrow> peak_int ch = pk"
  by (auto simp: mk_chunk_def ebind_Inr_iff Let_def)

lemma emap_map_eq:
  assumes "emap f xs = Inr ys" and "\<And>x y. f x = Inr y \<Longrightarrow> g y = h x"
  shows "map g ys = map h xs"
proof -
  from assms(1) have "list_all2 (\<lambda>x y. f x = Inr y) xs ys" by (simp add: emap_Inr_all2)
  then show ?thesis
    by (induction rule: list_all2_induct) (simp_all add: assms(2))
qed

lemma extract_peak_ints:
  assumes "extract_chunks P u s pf pk = Inr cs" and "length pk = length pf"
  shows "map peak_int cs = pk"
proof -
  let ?pw = "zip pf (map (\<lambda>pf. fdiv (fmul (o_vel_width u) pf) (ckm P)) pf)"
  from assms(1) obtain lo uo ls us where
    l: "emap (\<lambda>(x, y). find_nearest P (o_freq_arr u) (fsub x y)) ?pw = Inr lo"
       "emap (\<lambda>(x, y). find_nearest P (o_freq_arr u) (fadd x y)) ?pw = Inr uo"
       "emap (\<lambda>(x, y). find_nearest P (o_freq_sim u) (fsub x y)) ?pw = Inr ls"
       "emap (\<lambda>(x, y). find_nearest P (o_freq_sim u) (fadd x y)) ?pw = Inr us" and
    e: "emap (\<lambda>(wo, ws, pk, c). mk_chunk P u s wo ws pk c)
          (zip (zip lo uo) (zip (zip ls us) (zip pk [0..<length us]))) = Inr cs"
    by (auto simp: extract_chunks_def ebind_Inr_iff Let_def)
  have len: "length lo = length pf" "length uo = length pf" "length ls = length pf"
    "length us = length pf"
    using l by (auto dest!: emap_length)
  have "map peak_int cs =
      map (\<lambda>(wo, ws, pk, c). pk) (zip (zip lo uo) (zip (zip ls us) (zip pk [0..<length us])))"
    by (rule emap_map_eq [OF e]) (auto dest: mk_chunk_peak_int)
  also have "\<dots> = map (fst \<circ> snd) (map snd (zip (zip lo uo) (zip (zip ls us) (zip pk [0..<length us]))))"
    by (simp add: case_prod_beta comp_def)
  also have "map snd (zip (zip lo uo) (zip (zip ls us) (zip pk [0..<length us])))
      = zip (zip ls us) (zip pk [0..<length us])"
    by (rule map_snd_zip) (simp add: len assms(2))
  also have "map (fst \<circ> snd) (zip (zip ls us) (zip pk [0..<length us]))
      = map fst (map snd (zip (zip ls us) (zip pk [0..<length us])))"
    by simp
  also have "map snd (zip (zip ls us) (zip pk [0..<length us])) = zip pk [0..<length us]"
    by (rule map_snd_zip) (simp add: len assms(2))
  also have "map fst (zip pk [0..<length us]) = pk"
    by (rule map_fst_zip) (simp add: len assms(2))
  finally show ?thesis .
qed

lemma blank_pass_peak_int: "blank_pass P u s c = Inr (s', c', out) \<Longrightarrow> peak_int c' = peak_int c"
  by (auto simp: blank_pass_def ebind_Inr_iff Let_def)

lemma flag_pass_peak_int: "flag_pass u s c = Inr c' \<Longrightarrow> peak_int c' = peak_int c"
  by (auto simp: flag_pass_def ebind_Inr_iff)

lemma flag_step_peak_int:
  assumes "flag_step P u s c = Inr (s', c', out)"
  shows "peak_int c' = peak_int c"
  using assms
  by (auto simp: flag_step_def ebind_Inr_iff split: if_splits
      dest!: blank_pass_peak_int flag_pass_peak_int)

lemma flagging_peak_int:
  "flagging P u s cs = Inr (s', cs', out) \<Longrightarrow> map peak_int cs' = map peak_int cs"
proof (induction cs arbitrary: s s' cs' out)
  case Nil
  then show ?case by simp
next
  case (Cons c cs)
  from Cons.prems obtain s1 c1 out1 s2 cs2 out2 where
    st: "flag_step P u s c = Inr (s1, c1, out1)" and
    fl: "flagging P u s1 cs = Inr (s2, cs2, out2)" and
    eq: "cs' = c1 # cs2"
    by (auto simp: ebind_Inr_iff)
  show ?case
    using flag_step_peak_int [OF st] Cons.IH [OF fl] by (simp add: eq)
qed

lemma set_weight_peak_int: "peak_int (set_weight s m c) = peak_int c"
  by (simp add: set_weight_def)

lemma velocity_stack_Inr:
  assumes "velocity_stack P p = Inr r"
  obtains u sel pf pk obs_chunks where
    "unpack P p = Inr u"
    "select P u sel = Inr (pf, pk)"
    "extract_chunks P u \<lparr>obs_buf = o_int_arr u, sim_buf = o_int_sim u\<rparr> pf pk = Inr obs_chunks"
    "stack_chunks P u \<lparr>obs_buf = o_int_arr u, sim_buf = o_int_sim u\<rparr> pk obs_chunks = Inr r"
  using assms by (auto simp: velocity_stack_def ebind_Inr_iff)

lemma returned_peak_ints:
  assumes "stack_chunks P u s pk obs_chunks = Inr ((sp, cs), s', out)"
    and "extract_chunks P u s0 pf pk = Inr obs_chunks" and "length pk = length pf"
  shows "map peak_int cs = pk"
proof -
  from assms(1) obtain cs1 out1 max_int grid where
    fl: "flagging P u s obs_chunks = Inr (s', cs1, out1)" and
    rs: "emap (resample grid) (map (set_weight s' max_int) cs1) = Inr cs"
    by (rule stack_chunks_Inr)
  have "map peak_int cs = map peak_int (map (set_weight s' max_int) cs1)"
    by (rule emap_map_eq [OF rs]) (simp add: resample_keeps)
  also have "\<dots> = map peak_int cs1" by (simp add: set_weight_peak_int comp_def)
  also have "\<dots> = map peak_int obs_chunks" by (rule flagging_peak_int [OF fl])
  also have "\<dots> = pk" by (rule extract_peak_ints [OF assms(2,3)])
  finally show ?thesis .
qed

text \<open>
  C10.  Whenever \<open>velocity_stack\<close> returns, the returned chunk list has one chunk per
  candidate of the selection, flagged or not, with the candidates' peak intensities in
  order; the maximum that normalises the weights is \<open>max\<close> over the peak intensities of
  that whole list (a member that no member exceeds, when none is NaN), and every chunk
  that is not flagged has the weight \<open>(peak_int / max_int) / rms\<^sup>2\<close> with that maximum.
\<close>

theorem maximum_over_all_candidates:
  assumes "velocity_stack P p = Inr ((sp, cs), s', out)"
  shows "\<exists>max_int u sel pf pk.
       unpack P p = Inr u \<and> select P u sel = Inr (pf, pk) \<and> map peak_int cs = pk
     \<and> py_max (map peak_int cs) = Inr max_int
     \<and> ((\<forall>d\<in>set cs. \<not> isnan (peak_int d)) \<longrightarrow>
          (\<exists>d\<in>set cs. peak_int d = max_int) \<and> (\<forall>d\<in>set cs. \<not> fgt (peak_int d) max_int))
     \<and> (\<forall>c\<in>set cs. \<not> flag c \<longrightarrow>
          weight c = Some (fdiv (fdiv (peak_int c) max_int) (fmul (rms c) (rms c))))"
proof -
  from assms obtain u sel pf pk obs_chunks where
    un: "unpack P p = Inr u" and
    sel: "select P u sel = Inr (pf, pk)" and
    ex: "extract_chunks P u \<lparr>obs_buf = o_int_arr u, sim_buf = o_int_sim u\<rparr> pf pk
           = Inr obs_chunks" and
    st: "stack_chunks P u \<lparr>obs_buf = o_int_arr u, sim_buf = o_int_sim u\<rparr> pk obs_chunks
           = Inr ((sp, cs), s', out)"
    by (rule velocity_stack_Inr)
  have pk: "map peak_int cs = pk"
    by (rule returned_peak_ints [OF st ex select_lengths [OF sel]])
  from st obtain cs1 out1 max_int grid where mx: "py_max pk = Inr max_int"
    by (rule stack_chunks_Inr)
  have w: "weight c = Some (fdiv (fdiv (peak_int c) max_int) (fmul (rms c) (rms c)))"
    if "c \<in> set cs" "\<not> flag c" for c
    using survivor_weight [OF st that] mx by auto
  have "(\<forall>d\<in>set cs. \<not> isnan (peak_int d)) \<longrightarrow>
          (\<exists>d\<in>set cs. peak_int d = max_int) \<and> (\<forall>d\<in>set cs. \<not> fgt (peak_int d) max_int)"
    using py_max_member [OF mx] py_max_upper [OF mx] unfolding pk [symmetric] by auto
  with un sel pk mx w show ?thesis by blast
qed

text \<open>
  In the worked example the second candidate has the largest peak, 4, and is excluded by
  \<open>drops\<close>; the first survives with peak 1 and rms 2, and its weight is \<open>(1/4)/4\<close>.
\<close>

theorem maximum_over_all_candidates_witness:
  "velocity_stack demo_prims (demo_params [1])
     = Inr ((demo_spectrum, [demo_final0, demo_dropped1]), demo_store, [[Fin 0]])
   \<and> flag demo_dropped1 \<and> id_chunk demo_dropped1 = 1 \<and> peak_int demo_dropped1 = Fin 4
   \<and> \<not> flag demo_final0 \<and> peak_int demo_final0 = Fin 1 \<and> rms demo_final0 = Fin 2
   \<and> py_max (map peak_int [demo_final0, demo_dropped1]) = Inr (Fin 4)
   \<and> weight demo_final0 = Some (fdiv (fdiv (Fin 1) (Fin 4)) (fmul (Fin 2) (Fin 2)))"
proof -
  have v: "flag demo_dropped1" "id_chunk demo_dropped1 = 1" "peak_int demo_dropped1 = Fin 4"
    "\<not> flag demo_final0" "peak_int demo_final0 = Fin 1" "rms demo_final0 = Fin 2"
    by (simp_all add: demo_dropped1_def demo_chunk1_def demo_final0_def demo_weighted0_def
        demo_chunk0_def)
  have mx: "py_max (map peak_int [demo_final0, demo_dropped1]) = Inr (Fin 4)"
    by (simp add: v py_max_def)
  from maximum_over_all_candidates [OF demo_run] mx v
  have "weight demo_final0 = Some (fdiv (fdiv (Fin 1) (Fin 4)) (fmul (Fin 2) (Fin 2)))"
    by auto
  with demo_run v mx show ?thesis by blast
qed

end
